theory Spec2Isabelle
  imports Main
begin

section \<open>Paths\<close>

text \<open>
  The program handles files through \<^verbatim>\<open>pathlib.Path\<close>. A path is modelled as
  pathlib keeps it on POSIX: a root (\<open>''''\<close>, \<open>''/''\<close> or \<open>''//''\<close>) and the list of
  components after it. Constructing a path from a string splits at the separator and
  drops empty and \<open>''.''\<close> components, as \<^verbatim>\<open>Path(s)\<close> does.
\<close>

record path =
  p_root :: string
  p_parts :: "string list"

fun split_sep :: "string \<Rightarrow> string list" where
  "split_sep [] = [[]]"
| "split_sep (c # cs) =
     (if c = CHR ''/'' then [] # split_sep cs
      else (case split_sep cs of [] \<Rightarrow> [[c]] | x # xs \<Rightarrow> (c # x) # xs))"

definition parse_parts :: "string \<Rightarrow> string list" where
  "parse_parts s = filter (\<lambda>x. x \<noteq> [] \<and> x \<noteq> ''.'') (split_sep s)"

definition parse_root :: "string \<Rightarrow> string" where
  "parse_root s =
     (if take 2 s = ''//'' \<and> take 3 s \<noteq> ''///'' then ''//''
      else if take 1 s = ''/'' then ''/'' else [])"

definition Path :: "string \<Rightarrow> path" where
  "Path s = \<lparr>p_root = parse_root s, p_parts = parse_parts s\<rparr>"

text \<open>\<^verbatim>\<open>p / seg\<close>: an absolute segment replaces \<open>p\<close>, a relative one is appended.\<close>

definition joinpath :: "path \<Rightarrow> string \<Rightarrow> path" where
  "joinpath p seg =
     (if parse_root seg \<noteq> [] then Path seg
      else p\<lparr>p_parts := p_parts p @ parse_parts seg\<rparr>)"

definition name :: "path \<Rightarrow> string" where
  "name p = (case p_parts p of [] \<Rightarrow> [] | _ # _ \<Rightarrow> last (p_parts p))"

definition parent :: "path \<Rightarrow> path" where
  "parent p = (case p_parts p of [] \<Rightarrow> p | _ # _ \<Rightarrow> p\<lparr>p_parts := butlast (p_parts p)\<rparr>)"

text \<open>\<^verbatim>\<open>s.rfind(c)\<close>, with \<open>None\<close> for Python's \<open>-1\<close>.\<close>

fun rfind :: "char \<Rightarrow> string \<Rightarrow> nat option" where
  "rfind c [] = None"
| "rfind c (x # xs) =
     (case rfind c xs of
        Some i \<Rightarrow> Some (Suc i)
      | None \<Rightarrow> if x = c then Some 0 else None)"

text \<open>
  \<^verbatim>\<open>i = name.rfind('.'); if 0 < i < len(name) - 1: return name[i:] else: return ''\<close>
  and likewise \<^verbatim>\<open>name[:i]\<close> or the whole name for the stem.
\<close>

definition suffix :: "path \<Rightarrow> string" where
  "suffix p =
     (let n = name p in
      case rfind CHR ''.'' n of
        None \<Rightarrow> []
      | Some i \<Rightarrow> if 0 < i \<and> i < length n - 1 then drop i n else [])"

definition stem :: "path \<Rightarrow> string" where
  "stem p =
     (let n = name p in
      case rfind CHR ''.'' n of
        None \<Rightarrow> n
      | Some i \<Rightarrow> if 0 < i \<and> i < length n - 1 then take i n else n)"

fun join_sep :: "string list \<Rightarrow> string" where
  "join_sep [] = []"
| "join_sep [x] = x"
| "join_sep (x # y # ys) = x @ ''/'' @ join_sep (y # ys)"

definition str_path :: "path \<Rightarrow> string" where
  "str_path p =
     (if p_root p = [] \<and> p_parts p = [] then ''.''
      else p_root p @ join_sep (p_parts p))"

section \<open>Values, errors and the environment\<close>

text \<open>
  What \<^verbatim>\<open>json.loads\<close> returns: a Python value built from \<open>None\<close>, booleans, numbers,
  strings, lists and dictionaries. A float is kept by its printed form. A dictionary is
  an association list in insertion order.
\<close>

datatype json =
    JNull
  | JBool bool
  | JInt int
  | JFloat string
  | JStr string
  | JArr "json list"
  | JObj "(string \<times> json) list"

text \<open>The exceptions the program raises or lets through, each with its message.\<close>

datatype error =
    FileNotFoundError string
  | NotADirectoryError string
  | IsADirectoryError string
  | ValueError string
  | NotImplementedError string
  | AttributeError string
  | TypeError string
  | PipelineError string
  | XMPSidecarError string
  | CalledProcessError int "string list" string string
  | OSError string
  | ServiceError string

text \<open>The file tree: a file with its contents, or a directory with its entries in listing order.\<close>

datatype fsnode = File string | Dir "(string \<times> fsnode) list"

text \<open>The request sent to the inference service.\<close>

record request =
  rq_api_key :: string
  rq_model :: string
  rq_image :: string
  rq_mime_type :: string
  rq_prompt :: string
  rq_thinking_budget :: int

text \<open>What running an external command gives: exit code and captured output, or no process at all.\<close>

datatype proc_outcome = Completed int string string | SpawnFailed error

text \<open>
  Everything outside the program is a field of the environment: the file tree, the
  working directory and the process environment; the library functions
  \<^verbatim>\<open>fnmatch\<close>, \<^verbatim>\<open>json.loads\<close> (\<open>None\<close> stands for \<^verbatim>\<open>JSONDecodeError\<close>; the decoder is
  taken to give a value or this error on every text) and \<^verbatim>\<open>str\<close> on decoded values; the inference service, which answers the \<open>n\<close>-th request with
  response fragments (a fragment may carry no text) or fails; and the external
  command, whose \<open>n\<close>-th run gives an outcome. The file tree is not changed by a run:
  the metadata tool rewrites a sidecar in place, and its contents are not interpreted.
\<close>

record env =
  fs_root :: fsnode
  cwd :: "string list"
  environ :: "string \<Rightarrow> string option"
  fnmatch :: "string \<Rightarrow> string \<Rightarrow> bool"
  json_loads :: "string \<Rightarrow> json option"
  py_str :: "json \<Rightarrow> string"
  service :: "nat \<Rightarrow> request \<Rightarrow> error + string option list"
  process :: "nat \<Rightarrow> string list \<Rightarrow> proc_outcome"

text \<open>The effects of a run: the commands executed and the requests sent, in order.\<close>

record state =
  proc_calls :: "string list list"
  gen_calls :: "request list"

subsection \<open>Looking a path up\<close>

text \<open>
  \<open>walk\<close> follows components from a node, keeping the ancestors for \<open>..\<close>; a component
  below a file does not exist. A relative path starts at the working directory.
\<close>

fun walk :: "fsnode list \<Rightarrow> string list \<Rightarrow> fsnode option" where
  "walk [] cs = None"
| "walk (n # anc) [] = Some n"
| "walk (n # anc) (c # cs) =
     (case n of
        File _ \<Rightarrow> None
      | Dir es \<Rightarrow>
          if c = ''..'' then walk (if anc = [] then [n] else anc) cs
          else (case map_of es c of
                  None \<Rightarrow> None
                | Some ch \<Rightarrow> walk (ch # n # anc) cs))"

definition lookup :: "env \<Rightarrow> path \<Rightarrow> fsnode option" where
  "lookup E p = walk [fs_root E] ((if p_root p = [] then cwd E else []) @ p_parts p)"

definition exists :: "env \<Rightarrow> path \<Rightarrow> bool" where
  "exists E p = (lookup E p \<noteq> None)"

definition is_dir :: "env \<Rightarrow> path \<Rightarrow> bool" where
  "is_dir E p = (case lookup E p of Some (Dir _) \<Rightarrow> True | _ \<Rightarrow> False)"

definition scandir :: "env \<Rightarrow> path \<Rightarrow> string list" where
  "scandir E p = (case lookup E p of Some (Dir es) \<Rightarrow> map fst es | _ \<Rightarrow> [])"

definition read_file :: "env \<Rightarrow> path \<Rightarrow> error + string" where
  "read_file E p =
     (case lookup E p of
        None \<Rightarrow> Inl (FileNotFoundError (str_path p))
      | Some (Dir _) \<Rightarrow> Inl (IsADirectoryError (str_path p))
      | Some (File c) \<Rightarrow> Inr c)"

subsection \<open>Python values\<close>

text \<open>Truth value of a decoded value, as \<^verbatim>\<open>if keywords:\<close> tests it.\<close>

fun truthy :: "json \<Rightarrow> bool" where
  "truthy JNull = False"
| "truthy (JBool b) = b"
| "truthy (JInt i) = (i \<noteq> 0)"
| "truthy (JFloat r) = (r \<noteq> ''0.0'' \<and> r \<noteq> ''-0.0'')"
| "truthy (JStr s) = (s \<noteq> [])"
| "truthy (JArr xs) = (xs \<noteq> [])"
| "truthy (JObj kvs) = (kvs \<noteq> [])"

fun type_name :: "json \<Rightarrow> string" where
  "type_name JNull = ''NoneType''"
| "type_name (JBool b) = ''bool''"
| "type_name (JInt i) = ''int''"
| "type_name (JFloat r) = ''float''"
| "type_name (JStr s) = ''str''"
| "type_name (JArr xs) = ''list''"
| "type_name (JObj kvs) = ''dict''"

text \<open>\<^verbatim>\<open>for keyword in keywords\<close>: a list gives its items, a string its characters, a
  dictionary its keys; anything else is not iterable.\<close>

fun py_iter :: "json \<Rightarrow> error + json list" where
  "py_iter (JArr xs) = Inr xs"
| "py_iter (JStr s) = Inr (map (\<lambda>c. JStr [c]) s)"
| "py_iter (JObj kvs) = Inr (map (\<lambda>kv. JStr (fst kv)) kvs)"
| "py_iter v = Inl (TypeError ([CHR 0x27] @ type_name v @ [CHR 0x27] @ '' object is not iterable''))"

text \<open>\<^verbatim>\<open>f"{keyword}"\<close>: a string is itself, another value is printed by \<^verbatim>\<open>str\<close>.\<close>

definition format_value :: "env \<Rightarrow> json \<Rightarrow> string" where
  "format_value E v = (case v of JStr s \<Rightarrow> s | _ \<Rightarrow> py_str E v)"

text \<open>\<^verbatim>\<open>d[k] = v\<close> on a dictionary in insertion order.\<close>

fun dict_set :: "('k \<times> 'v) list \<Rightarrow> 'k \<Rightarrow> 'v \<Rightarrow> ('k \<times> 'v) list" where
  "dict_set [] k v = [(k, v)]"
| "dict_set ((k', v') # d) k v = (if k' = k then (k, v) # d else (k', v') # dict_set d k v)"

section \<open>Sidecar locator and metadata writer (xmp\_tagger.py)\<close>

text \<open>\<^verbatim>\<open>return raw_file.parent / f"{raw_file.stem}.xmp"\<close>\<close>

definition get_xmp_path :: "path \<Rightarrow> path" where
  "get_xmp_path raw_file = joinpath (parent raw_file) (stem raw_file @ ''.xmp'')"

definition check_xmp_exists :: "env \<Rightarrow> path \<Rightarrow> bool" where
  "check_xmp_exists E raw_file = exists E (get_xmp_path raw_file)"

text \<open>The loop of \<^verbatim>\<open>ensure_xmp_sidecars\<close>, appending to one of the two lists.\<close>

fun ensure_loop :: "env \<Rightarrow> path list \<Rightarrow> path list \<Rightarrow> path list \<Rightarrow> path list \<times> path list" where
  "ensure_loop E [] files_with_xmp files_without_xmp = (files_with_xmp, files_without_xmp)"
| "ensure_loop E (raw_file # rest) files_with_xmp files_without_xmp =
     (if check_xmp_exists E raw_file
      then ensure_loop E rest (files_with_xmp @ [raw_file]) files_without_xmp
      else ensure_loop E rest files_with_xmp (files_without_xmp @ [raw_file]))"

definition ensure_xmp_sidecars :: "env \<Rightarrow> path list \<Rightarrow> path list \<times> path list" where
  "ensure_xmp_sidecars E raw_files = ensure_loop E raw_files [] []"

text \<open>
  \<^verbatim>\<open>subprocess.run(cmd, capture_output=True, text=True, check=True)\<close>: the command is
  recorded, and a non-zero exit code raises \<^verbatim>\<open>CalledProcessError\<close>.
\<close>

definition subprocess_run :: "env \<Rightarrow> string list \<Rightarrow> state \<Rightarrow> (error + int \<times> string \<times> string) \<times> state" where
  "subprocess_run E cmd s =
     (let s' = s\<lparr>proc_calls := proc_calls s @ [cmd]\<rparr> in
      case process E (length (proc_calls s)) cmd of
        SpawnFailed e \<Rightarrow> (Inl e, s')
      | Completed rc out err \<Rightarrow>
          if rc \<noteq> 0 then (Inl (CalledProcessError rc cmd out err), s')
          else (Inr (rc, out, err), s'))"

text \<open>The command line \<^verbatim>\<open>add_keywords_to_xmp\<close> builds from the items of \<open>keywords\<close>.\<close>

definition build_cmd :: "env \<Rightarrow> string \<Rightarrow> json list \<Rightarrow> path \<Rightarrow> string list" where
  "build_cmd E exiftool_path items xmp_file =
     [exiftool_path, ''-overwrite_original'']
     @ map (\<lambda>keyword. ''-XMP-dc:Subject+='' @ format_value E keyword) items
     @ [str_path xmp_file]"

definition add_keywords_to_xmp ::
  "env \<Rightarrow> path \<Rightarrow> json \<Rightarrow> string \<Rightarrow> state \<Rightarrow> (error + unit) \<times> state" where
  "add_keywords_to_xmp E xmp_file keywords exiftool_path s =
     (if \<not> exists E xmp_file
      then (Inl (FileNotFoundError (''XMP file not found: '' @ str_path xmp_file)), s)
      else if \<not> truthy keywords then (Inr (), s)
      else (case py_iter keywords of
              Inl e \<Rightarrow> (Inl e, s)
            | Inr items \<Rightarrow>
                (let cmd = build_cmd E exiftool_path items xmp_file in
                 case subprocess_run E cmd s of
                   (Inl e, s') \<Rightarrow> (Inl e, s')
                 | (Inr (rc, out, err), s') \<Rightarrow>
                     if rc \<noteq> 0 then (Inl (CalledProcessError rc cmd out err), s')
                     else (Inr (), s'))))"

definition add_keywords_to_raw ::
  "env \<Rightarrow> path \<Rightarrow> json \<Rightarrow> string \<Rightarrow> state \<Rightarrow> (error + unit) \<times> state" where
  "add_keywords_to_raw E raw_file keywords exiftool_path s =
     (if \<not> exists E raw_file
      then (Inl (FileNotFoundError (''RAW file not found: '' @ str_path raw_file)), s)
      else if snd (ensure_xmp_sidecars E [raw_file]) \<noteq> []
      then (Inl (XMPSidecarError (''Missing XMP sidecar file for '' @ str_path raw_file
                   @ [CHR 0x0A] @ ''Expected: '' @ str_path (get_xmp_path raw_file))), s)
      else add_keywords_to_xmp E (get_xmp_path raw_file) keywords exiftool_path s)"

text \<open>The first loop of \<^verbatim>\<open>batch_add_keywords\<close>: the first RAW file that does not exist.\<close>

fun first_missing :: "env \<Rightarrow> path list \<Rightarrow> path option" where
  "first_missing E [] = None"
| "first_missing E (raw_file # rest) =
     (if \<not> exists E raw_file then Some raw_file else first_missing E rest)"

text \<open>The second loop, over the items of the dictionary; an error ends it.\<close>

fun batch_loop ::
  "env \<Rightarrow> path list \<Rightarrow> string \<Rightarrow> (path \<times> json) list \<Rightarrow> state \<Rightarrow> (error + unit) \<times> state" where
  "batch_loop E files_with_xmp exiftool_path [] s = (Inr (), s)"
| "batch_loop E files_with_xmp exiftool_path ((raw_file, keywords) # rest) s =
     (if raw_file \<in> set files_with_xmp \<and> truthy keywords
      then (case add_keywords_to_xmp E (get_xmp_path raw_file) keywords exiftool_path s of
              (Inl e, s') \<Rightarrow> (Inl e, s')
            | (Inr u, s') \<Rightarrow> batch_loop E files_with_xmp exiftool_path rest s')
      else batch_loop E files_with_xmp exiftool_path rest s)"

definition batch_add_keywords ::
  "env \<Rightarrow> (path \<times> json) list \<Rightarrow> string \<Rightarrow> state \<Rightarrow> (error + unit) \<times> state" where
  "batch_add_keywords E raw_files_keywords exiftool_path s =
     (let raw_files = map fst raw_files_keywords in
      case first_missing E raw_files of
        Some raw_file \<Rightarrow> (Inl (FileNotFoundError (''RAW file not found: '' @ str_path raw_file)), s)
      | None \<Rightarrow>
          (let files_with_xmp = fst (ensure_xmp_sidecars E raw_files) in
           batch_loop E files_with_xmp exiftool_path raw_files_keywords s))"

section \<open>File matcher (file\_finder.py)\<close>

subsection \<open>\<^verbatim>\<open>Path.glob\<close>\<close>

text \<open>
  \<^verbatim>\<open>Path.glob\<close> as pathlib implements it: the pattern is split into
  components, and each component selects below the paths the one before it gave.
  \<^verbatim>\<open>**\<close> gives the directory itself and every directory below it, depth first in listing
  order, and yields a path once; a component with \<^verbatim>\<open>*\<close>, \<^verbatim>\<open>?\<close> or \<^verbatim>\<open>[\<close> is matched
  against the entries of the directory with \<^verbatim>\<open>fnmatch\<close>; any other component is a name
  that has to exist. A component that holds \<^verbatim>\<open>**\<close> next to other characters is
  rejected with a \<^verbatim>\<open>ValueError\<close> when the selectors are built, before anything is
  searched. Symbolic links and permissions are not part of the file tree.
\<close>

definition is_wildcard_pattern :: "string \<Rightarrow> bool" where
  "is_wildcard_pattern pat = (CHR ''*'' \<in> set pat \<or> CHR ''?'' \<in> set pat \<or> CHR ''['' \<in> set pat)"

definition child :: "path \<Rightarrow> string \<Rightarrow> path" where
  "child p nm = p\<lparr>p_parts := p_parts p @ [nm]\<rparr>"

fun subdirs :: "fsnode \<Rightarrow> string list list" where
  "subdirs (File c) = [[]]"
| "subdirs (Dir es) =
     [] # concat (map (\<lambda>(nm, ch). case ch of File c \<Rightarrow> [] | Dir es' \<Rightarrow> map ((#) nm) (subdirs ch)) es)"

definition iterate_directories :: "env \<Rightarrow> path \<Rightarrow> path list" where
  "iterate_directories E p =
     (case lookup E p of
        None \<Rightarrow> [p]
      | Some n \<Rightarrow> map (\<lambda>rel. p\<lparr>p_parts := p_parts p @ rel\<rparr>) (subdirs n))"

fun yield_once :: "'a list \<Rightarrow> 'a list \<Rightarrow> 'a list" where
  "yield_once yielded [] = []"
| "yield_once yielded (p # ps) =
     (if p \<in> set yielded then yield_once yielded ps else p # yield_once (p # yielded) ps)"

fun select_from :: "env \<Rightarrow> string list \<Rightarrow> path \<Rightarrow> path list" where
  "select_from E [] p = [p]"
| "select_from E (pat # ps) p =
     (if pat = [] then [p]
      else if pat = ''**'' then
        yield_once [] (concat (map (select_from E ps) (iterate_directories E p)))
      else if is_wildcard_pattern pat then
        concat (map (\<lambda>nm. select_from E ps (child p nm))
                    (filter (\<lambda>nm. (ps \<noteq> [] \<longrightarrow> is_dir E (child p nm)) \<and> fnmatch E nm pat)
                            (scandir E p)))
      else if (if ps \<noteq> [] then is_dir E (child p pat) else exists E (child p pat))
        then select_from E ps (child p pat)
      else [])"

text \<open>\<^verbatim>\<open>'**' in pat\<close>\<close>

fun has_double_star :: "string \<Rightarrow> bool" where
  "has_double_star (a # b # cs) = ((a = CHR ''*'' \<and> b = CHR ''*'') \<or> has_double_star (b # cs))"
| "has_double_star cs = False"

text \<open>The components of a pattern; a pattern that ends in a separator gets an empty last one.\<close>

definition pattern_parts :: "string \<Rightarrow> string list" where
  "pattern_parts pattern = parse_parts pattern @ (if last pattern = CHR ''/'' then [[]] else [])"

text \<open>\<^verbatim>\<open>if pat == '**': ... elif '**' in pat: raise ValueError(...)\<close>\<close>

definition invalid_component :: "string \<Rightarrow> bool" where
  "invalid_component pat = (pat \<noteq> ''**'' \<and> has_double_star pat)"

definition accepted_pattern :: "string \<Rightarrow> bool" where
  "accepted_pattern pattern = (\<not> list_ex invalid_component (pattern_parts pattern))"

definition glob :: "env \<Rightarrow> path \<Rightarrow> string \<Rightarrow> error + path list" where
  "glob E p pattern =
     (if pattern = [] then Inl (ValueError ''Unacceptable pattern'')
      else if parse_root pattern \<noteq> [] then Inl (NotImplementedError ''Non-relative patterns are unsupported'')
      else if \<not> accepted_pattern pattern
      then Inl (ValueError (''Invalid pattern: '' @ [CHR 0x27] @ ''**'' @ [CHR 0x27]
                            @ '' can only be an entire path component''))
      else if \<not> is_dir E p then Inr []
      else Inr (select_from E (pattern_parts pattern) p))"

subsection \<open>\<^verbatim>\<open>find_raw_file\<close> and \<^verbatim>\<open>find_raw_files\<close>\<close>

definition default_extensions :: "string list" where
  "default_extensions = [''.arw'', ''.dng'', ''.ARW'', ''.DNG'']"

text \<open>The loop over the extensions: the first match of the first extension that has one.\<close>

fun find_loop :: "env \<Rightarrow> path \<Rightarrow> string \<Rightarrow> string list \<Rightarrow> error + path option" where
  "find_loop E base_path jpeg_stem [] = Inr None"
| "find_loop E base_path jpeg_stem (ext # exts) =
     (case glob E base_path (''**/'' @ jpeg_stem @ ext) of
        Inl e \<Rightarrow> Inl e
      | Inr matches \<Rightarrow>
          (case matches of
             m # _ \<Rightarrow> Inr (Some m)
           | [] \<Rightarrow> find_loop E base_path jpeg_stem exts))"

text \<open>\<^verbatim>\<open>if extensions is None: extensions = [".arw", ".dng", ".ARW", ".DNG"]\<close>\<close>

definition extension_list :: "string list option \<Rightarrow> string list" where
  "extension_list extensions = (case extensions of None \<Rightarrow> default_extensions | Some xs \<Rightarrow> xs)"

definition find_raw_file :: "env \<Rightarrow> path \<Rightarrow> path \<Rightarrow> string list option \<Rightarrow> error + path option" where
  "find_raw_file E jpeg_path base_path extensions =
     (if \<not> exists E base_path
      then Inl (FileNotFoundError (''Base path does not exist: '' @ str_path base_path))
      else find_loop E base_path (stem jpeg_path) (extension_list extensions))"

text \<open>
  A plain file name: not empty, not \<open>.\<close>, without a separator and without the characters
  \<^verbatim>\<open>*\<close>, \<^verbatim>\<open>?\<close> and \<^verbatim>\<open>[\<close> that \<^verbatim>\<open>glob\<close> reads as wildcards.
\<close>

definition plain_name :: "string \<Rightarrow> bool" where
  "plain_name n = (n \<noteq> [] \<and> n \<noteq> ''.'' \<and> CHR ''/'' \<notin> set n \<and> \<not> is_wildcard_pattern n)"



section \<open>Keyword requester (keyword\_generator.py)\<close>

definition lower_char :: "char \<Rightarrow> char" where
  "lower_char c =
     (let n = (of_char c :: nat) in if 65 \<le> n \<and> n \<le> 90 then char_of (n + 32) else c)"

definition mime_types :: "(string \<times> string) list" where
  "mime_types =
     [(''.jpg'', ''image/jpeg''), (''.jpeg'', ''image/jpeg''), (''.png'', ''image/png''),
      (''.gif'', ''image/gif''), (''.webp'', ''image/webp''), (''.bmp'', ''image/bmp''),
      (''.tiff'', ''image/tiff''), (''.tif'', ''image/tiff'')]"

definition get_mime_type :: "path \<Rightarrow> string" where
  "get_mime_type image_path =
     (case map_of mime_types (map lower_char (suffix image_path)) of
        Some m \<Rightarrow> m
      | None \<Rightarrow> ''image/jpeg'')"

text \<open>The prompt is a fixed instruction text around the taxonomy; the text is shortened here.\<close>

definition build_prompt :: "string \<Rightarrow> string" where
  "build_prompt taxonomy_content =
     ''I have a keyword taxonomy that I use in my lightroom catalog. Keyword Taxonomy: ''
     @ taxonomy_content
     @ '' Now analyze the image and provide the keywords. ''"

text \<open>
  \<^verbatim>\<open>for chunk in stream: if chunk.text: response_text += chunk.text\<close>
\<close>

fun collect_text :: "string \<Rightarrow> string option list \<Rightarrow> string" where
  "collect_text response_text [] = response_text"
| "collect_text response_text (chunk # chunks) =
     (case chunk of
        None \<Rightarrow> collect_text response_text chunks
      | Some text \<Rightarrow>
          if text \<noteq> [] then collect_text (response_text @ text) chunks
          else collect_text response_text chunks)"

text \<open>
  \<^verbatim>\<open>result = json.loads(response_text); keywords = result.get("keywords", [])\<close>, where only
  \<^verbatim>\<open>JSONDecodeError\<close> is caught. A decoded value that is not a dictionary has no
  \<^verbatim>\<open>get\<close>.
\<close>

definition parse_response :: "env \<Rightarrow> string \<Rightarrow> error + json" where
  "parse_response E response_text =
     (case json_loads E response_text of
        None \<Rightarrow> Inl (ValueError (''Failed to parse Gemini response as JSON: '' @ response_text))
      | Some result \<Rightarrow>
          (case result of
             JObj kvs \<Rightarrow> Inr (case map_of kvs ''keywords'' of Some v \<Rightarrow> v | None \<Rightarrow> JArr [])
           | _ \<Rightarrow> Inl (AttributeError ([CHR 0x27] @ type_name result @ [CHR 0x27]
                        @ '' object has no attribute '' @ [CHR 0x27] @ ''get'' @ [CHR 0x27]))))"

definition generate_keywords ::
  "env \<Rightarrow> path \<Rightarrow> path \<Rightarrow> string option \<Rightarrow> string \<Rightarrow> int \<Rightarrow> state \<Rightarrow> (error + json) \<times> state" where
  "generate_keywords E image_path taxonomy_path api_key model thinking_budget s =
     (if \<not> exists E image_path
      then (Inl (FileNotFoundError (''Image file not found: '' @ str_path image_path)), s)
      else if \<not> exists E taxonomy_path
      then (Inl (FileNotFoundError (''Taxonomy file not found: '' @ str_path taxonomy_path)), s)
      else
        (case (case api_key of None \<Rightarrow> environ E ''GEMINI_API_KEY'' | Some k \<Rightarrow> Some k) of
           None \<Rightarrow> (Inl (ValueError ''API key must be provided or set in GEMINI_API_KEY environment variable''), s)
         | Some key \<Rightarrow>
             if key = []
             then (Inl (ValueError ''API key must be provided or set in GEMINI_API_KEY environment variable''), s)
             else
               (case read_file E image_path of
                  Inl e \<Rightarrow> (Inl e, s)
                | Inr image_data \<Rightarrow>
                    (case read_file E taxonomy_path of
                       Inl e \<Rightarrow> (Inl e, s)
                     | Inr taxonomy_content \<Rightarrow>
                         (let rq = \<lparr>rq_api_key = key, rq_model = model, rq_image = image_data,
                                    rq_mime_type = get_mime_type image_path,
                                    rq_prompt = build_prompt taxonomy_content,
                                    rq_thinking_budget = thinking_budget\<rparr>;
                              s' = s\<lparr>gen_calls := gen_calls s @ [rq]\<rparr>
                          in case service E (length (gen_calls s)) rq of
                               Inl e \<Rightarrow> (Inl e, s')
                             | Inr chunks \<Rightarrow> (parse_response E (collect_text [] chunks), s'))))))"

text \<open>
  The inputs of a request are in order: the image and the taxonomy are files, and a
  non-empty credential is given or found in the process environment.
\<close>

definition is_file :: "env \<Rightarrow> path \<Rightarrow> bool" where
  "is_file E p = (case lookup E p of Some (File c) \<Rightarrow> True | _ \<Rightarrow> False)"

definition inputs_ok :: "env \<Rightarrow> path \<Rightarrow> path \<Rightarrow> string option \<Rightarrow> bool" where
  "inputs_ok E image_path taxonomy_path api_key =
     (is_file E image_path \<and> is_file E taxonomy_path \<and>
      (case api_key of
         Some k \<Rightarrow> k \<noteq> []
       | None \<Rightarrow> (case environ E ''GEMINI_API_KEY'' of Some k \<Rightarrow> k \<noteq> [] | None \<Rightarrow> False)))"

text \<open>An environment whose inference service answers every request with the given fragments.\<close>

definition with_service :: "env \<Rightarrow> string option list \<Rightarrow> env" where
  "with_service E chunks = E\<lparr>service := (\<lambda>n rq. Inr chunks)\<rparr>"

text \<open>The concatenation of the response fragments, a fragment without text counting as empty.\<close>

definition concatenation :: "string option list \<Rightarrow> string" where
  "concatenation chunks = concat (map (\<lambda>chunk. case chunk of None \<Rightarrow> [] | Some text \<Rightarrow> text) chunks)"

section \<open>Directory pipeline (pipeline.py)\<close>

text \<open>Step 2: the loop that matches each JPEG file to a RAW file.\<close>

fun match_loop ::
  "env \<Rightarrow> path \<Rightarrow> string list option \<Rightarrow> path list \<Rightarrow> (path \<times> path) list \<Rightarrow> path list
     \<Rightarrow> error + (path \<times> path) list \<times> path list" where
  "match_loop E raw_search_path extensions [] jpeg_to_raw missing_raw_files =
     Inr (jpeg_to_raw, missing_raw_files)"
| "match_loop E raw_search_path extensions (jpeg_file # rest) jpeg_to_raw missing_raw_files =
     (case find_raw_file E jpeg_file raw_search_path extensions of
        Inl e \<Rightarrow> Inl e
      | Inr None \<Rightarrow>
          match_loop E raw_search_path extensions rest jpeg_to_raw (missing_raw_files @ [jpeg_file])
      | Inr (Some raw_file) \<Rightarrow>
          match_loop E raw_search_path extensions rest
            (dict_set jpeg_to_raw jpeg_file raw_file) missing_raw_files)"

text \<open>Step 4: the loop that asks for the keywords of each JPEG file; an error ends it.\<close>

fun gen_loop ::
  "env \<Rightarrow> path \<Rightarrow> string option \<Rightarrow> string \<Rightarrow> int \<Rightarrow> (path \<times> path) list \<Rightarrow> (path \<times> json) list
     \<Rightarrow> state \<Rightarrow> (error + (path \<times> json) list) \<times> state" where
  "gen_loop E taxonomy_path api_key model thinking_budget [] raw_to_keywords s =
     (Inr raw_to_keywords, s)"
| "gen_loop E taxonomy_path api_key model thinking_budget ((jpeg_file, raw_file) # rest)
       raw_to_keywords s =
     (case generate_keywords E jpeg_file taxonomy_path api_key model thinking_budget s of
        (Inl e, s') \<Rightarrow> (Inl e, s')
      | (Inr keywords, s') \<Rightarrow>
          gen_loop E taxonomy_path api_key model thinking_budget rest
            (dict_set raw_to_keywords raw_file keywords) s')"

text \<open>Step 1: the four globs of the JPEG directory, in the order of the source.\<close>

definition discover_jpegs :: "env \<Rightarrow> path \<Rightarrow> error + path list" where
  "discover_jpegs E jpeg_dir =
     (case glob E jpeg_dir ''*.jpg'' of Inl e \<Rightarrow> Inl e | Inr a \<Rightarrow>
      case glob E jpeg_dir ''*.JPG'' of Inl e \<Rightarrow> Inl e | Inr b \<Rightarrow>
      case glob E jpeg_dir ''*.jpeg'' of Inl e \<Rightarrow> Inl e | Inr c \<Rightarrow>
      case glob E jpeg_dir ''*.JPEG'' of Inl e \<Rightarrow> Inl e | Inr d \<Rightarrow> Inr (a @ b @ c @ d))"

text \<open>
  \<^verbatim>\<open>{jpeg: raw for jpeg, raw in jpeg_to_raw.items() if raw in files_with_xmp}\<close>, where
  \<^verbatim>\<open>files_with_xmp\<close> is the first list that \<^verbatim>\<open>ensure_xmp_sidecars\<close> gives for the matched
  RAW files: the pairs that pass the sidecar check.
\<close>

definition with_sidecar :: "env \<Rightarrow> (path \<times> path) list \<Rightarrow> (path \<times> path) list" where
  "with_sidecar E jpeg_to_raw =
     (let files_with_xmp = fst (ensure_xmp_sidecars E (map snd jpeg_to_raw))
      in filter (\<lambda>(jpeg, raw). raw \<in> set files_with_xmp) jpeg_to_raw)"

text \<open>Steps 3 to 5, from the matched pairs on. The printed progress and warnings are left out.\<close>

definition tag_matched ::
  "env \<Rightarrow> path \<Rightarrow> string option \<Rightarrow> string \<Rightarrow> int \<Rightarrow> string \<Rightarrow> (path \<times> path) list \<Rightarrow> state
     \<Rightarrow> (error + (path \<times> json) list) \<times> state" where
  "tag_matched E taxonomy_path api_key model thinking_budget exiftool_path jpeg_to_raw s =
     (let raw_files = map snd jpeg_to_raw;
          files_with_xmp = fst (ensure_xmp_sidecars E raw_files)
      in if files_with_xmp = []
         then (Inl (PipelineError ''No files with XMP sidecars found. Cannot proceed.''), s)
         else
           (let jpeg_to_raw_with_xmp = with_sidecar E jpeg_to_raw
            in case gen_loop E taxonomy_path api_key model thinking_budget jpeg_to_raw_with_xmp [] s of
                 (Inl e, s') \<Rightarrow> (Inl e, s')
               | (Inr raw_to_keywords, s') \<Rightarrow>
                   (case batch_add_keywords E raw_to_keywords exiftool_path s' of
                      (Inl e, s'') \<Rightarrow> (Inl e, s'')
                    | (Inr u, s'') \<Rightarrow> (Inr raw_to_keywords, s''))))"

definition process_directory ::
  "env \<Rightarrow> path \<Rightarrow> path \<Rightarrow> path \<Rightarrow> string option \<Rightarrow> string \<Rightarrow> int \<Rightarrow> string \<Rightarrow> string list option
     \<Rightarrow> state \<Rightarrow> (error + (path \<times> json) list) \<times> state" where
  "process_directory E jpeg_dir raw_search_path taxonomy_path api_key model thinking_budget
       exiftool_path extensions s =
     (if \<not> exists E jpeg_dir
      then (Inl (FileNotFoundError (''JPEG directory not found: '' @ str_path jpeg_dir)), s)
      else if \<not> is_dir E jpeg_dir
      then (Inl (NotADirectoryError (''JPEG path is not a directory: '' @ str_path jpeg_dir)), s)
      else if \<not> exists E raw_search_path
      then (Inl (FileNotFoundError (''RAW search path not found: '' @ str_path raw_search_path)), s)
      else if \<not> exists E taxonomy_path
      then (Inl (FileNotFoundError (''Taxonomy file not found: '' @ str_path taxonomy_path)), s)
      else
        (case discover_jpegs E jpeg_dir of
           Inl e \<Rightarrow> (Inl e, s)
         | Inr jpeg_files \<Rightarrow>
             if jpeg_files = []
             then (Inl (PipelineError (''No JPEG files found in '' @ str_path jpeg_dir)), s)
             else
               (case match_loop E raw_search_path extensions jpeg_files [] [] of
                  Inl e \<Rightarrow> (Inl e, s)
                | Inr (jpeg_to_raw, missing_raw_files) \<Rightarrow>
                    if jpeg_to_raw = []
                    then (Inl (PipelineError ''No RAW files found for any JPEG files. Cannot proceed.''), s)
                    else tag_matched E taxonomy_path api_key model thinking_budget exiftool_path
                           jpeg_to_raw s)))"

section \<open>Library functions and a file tree to run the program on\<close>

text \<open>
  The theorems below hold for every environment. To run the program on concrete
  inputs, the library functions are given here as programs: shell-style matching with
  \<^verbatim>\<open>*\<close>, \<^verbatim>\<open>?\<close> and character classes, a decoder for JSON texts, and the printing of
  scalar values.
\<close>

subsection \<open>\<^verbatim>\<open>fnmatch.fnmatchcase\<close>\<close>

text \<open>
  A class \<^verbatim>\<open>[...]\<close> ends at the first \<^verbatim>\<open>]\<close> after its first character; \<^verbatim>\<open>!\<close> negates
  it; \<^verbatim>\<open>a-z\<close> is a range. A \<^verbatim>\<open>[\<close> that is never closed stands for itself.
\<close>

fun class_end :: "string \<Rightarrow> (string \<times> string) option" where
  "class_end [] = None"
| "class_end (c # cs) = (if c = CHR '']'' then Some ([], cs)
     else (case class_end cs of None \<Rightarrow> None | Some (stuff, rest) \<Rightarrow> Some (c # stuff, rest)))"

definition split_class :: "string \<Rightarrow> (bool \<times> string \<times> string) option" where
  "split_class p =
     (let (neg, p1) = (case p of c # r \<Rightarrow> if c = CHR ''!'' then (True, r) else (False, p) | [] \<Rightarrow> (False, p)) in
      case p1 of
        [] \<Rightarrow> None
      | c # r \<Rightarrow> (case class_end r of None \<Rightarrow> None | Some (stuff, rest) \<Rightarrow> Some (neg, c # stuff, rest)))"

fun in_class :: "char \<Rightarrow> string \<Rightarrow> bool" where
  "in_class x (lo # d # hi # cs) =
     (if d = CHR ''-'' then ((of_char lo :: nat) \<le> of_char x \<and> (of_char x :: nat) \<le> of_char hi) \<or> in_class x cs
      else x = lo \<or> in_class x (d # hi # cs))"
| "in_class x (c # cs) = (x = c \<or> in_class x cs)"
| "in_class x [] = False"

function fnmatchcase :: "string \<Rightarrow> string \<Rightarrow> bool" where
  "fnmatchcase nm [] = (nm = [])"
| "fnmatchcase nm (p # ps) =
     (if p = CHR ''*'' then
        fnmatchcase nm ps \<or> (case nm of [] \<Rightarrow> False | _ # nm' \<Rightarrow> fnmatchcase nm' (p # ps))
      else if p = CHR ''?'' then
        (case nm of [] \<Rightarrow> False | _ # nm' \<Rightarrow> fnmatchcase nm' ps)
      else if p = CHR ''['' \<and> split_class ps \<noteq> None then
        (case nm of
           [] \<Rightarrow> False
         | x # nm' \<Rightarrow>
             (case split_class ps of
                None \<Rightarrow> False
              | Some (neg, stuff, rest) \<Rightarrow>
                  (in_class x stuff \<noteq> neg) \<and> fnmatchcase nm' (drop (length ps - length rest) ps)))
      else
        (case nm of [] \<Rightarrow> False | x # nm' \<Rightarrow> x = p \<and> fnmatchcase nm' ps))"
  by pat_completeness auto
termination
  by (relation "measure (\<lambda>(nm, pat). length nm + length pat)") auto

subsection \<open>\<^verbatim>\<open>json.loads\<close>\<close>

definition is_ws :: "char \<Rightarrow> bool" where
  "is_ws c = (c = CHR 0x20 \<or> c = CHR 0x09 \<or> c = CHR 0x0A \<or> c = CHR 0x0D)"

definition skip_ws :: "string \<Rightarrow> string" where
  "skip_ws s = dropWhile is_ws s"

definition is_digit :: "char \<Rightarrow> bool" where
  "is_digit c = (48 \<le> (of_char c :: nat) \<and> (of_char c :: nat) \<le> 57)"

definition digits_val :: "string \<Rightarrow> nat" where
  "digits_val ds = foldl (\<lambda>a c. 10 * a + (of_char c - 48)) 0 ds"

definition hex_val :: "char \<Rightarrow> nat option" where
  "hex_val c =
     (let n = (of_char c :: nat) in
      if 48 \<le> n \<and> n \<le> 57 then Some (n - 48)
      else if 65 \<le> n \<and> n \<le> 70 then Some (n - 55)
      else if 97 \<le> n \<and> n \<le> 102 then Some (n - 87)
      else None)"

text \<open>A code point as bytes: strings are byte sequences in UTF-8.\<close>

definition utf8 :: "nat \<Rightarrow> string" where
  "utf8 n =
     (if n < 128 then [char_of n]
      else if n < 2048 then [char_of (192 + n div 64), char_of (128 + n mod 64)]
      else [char_of (224 + n div 4096), char_of (128 + (n div 64) mod 64), char_of (128 + n mod 64)])"

definition unescape :: "char \<Rightarrow> char option" where
  "unescape c =
     (if c = CHR 0x22 \<or> c = CHR 0x5C \<or> c = CHR ''/'' then Some c
      else if c = CHR ''b'' then Some (CHR 0x08)
      else if c = CHR ''f'' then Some (CHR 0x0C)
      else if c = CHR ''n'' then Some (CHR 0x0A)
      else if c = CHR ''r'' then Some (CHR 0x0D)
      else if c = CHR ''t'' then Some (CHR 0x09)
      else None)"

text \<open>The text of a string after its opening quote, up to the closing one.\<close>

fun parse_string :: "string \<Rightarrow> (string \<times> string) option" where
  "parse_string [] = None"
| "parse_string [c] = (if c = CHR 0x22 then Some ([], []) else None)"
| "parse_string (c # d # cs) =
     (if c = CHR 0x22 then Some ([], d # cs)
      else if c = CHR 0x5C then
        (if d = CHR ''u'' then
           (case map hex_val (take 4 cs) of
              [Some h1, Some h2, Some h3, Some h4] \<Rightarrow>
                (case parse_string (drop 4 cs) of
                   None \<Rightarrow> None
                 | Some (str, rest) \<Rightarrow> Some (utf8 (((h1 * 16 + h2) * 16 + h3) * 16 + h4) @ str, rest))
            | _ \<Rightarrow> None)
         else (case unescape d of
                 None \<Rightarrow> None
               | Some x \<Rightarrow> (case parse_string cs of
                              None \<Rightarrow> None
                            | Some (str, rest) \<Rightarrow> Some (x # str, rest))))
      else if (of_char c :: nat) < 32 then None
      else (case parse_string (d # cs) of
              None \<Rightarrow> None
            | Some (str, rest) \<Rightarrow> Some (c # str, rest)))"

text \<open>
  A number: an optional sign, an integer part without a leading zero, an optional
  fraction and an optional exponent. Without fraction and exponent it is an integer;
  otherwise it is a float, kept by the text of the literal (the printed form of a float
  written like \<open>1.5\<close>).
\<close>

definition parse_number :: "string \<Rightarrow> (json \<times> string) option" where
  "parse_number s =
     (let (neg, s1) = (case s of c # r \<Rightarrow> if c = CHR ''-'' then (True, r) else (False, s) | [] \<Rightarrow> (False, s));
          ip0 = takeWhile is_digit s1;
          ip = (if take 1 ip0 = ''0'' then ''0'' else ip0);
          s2 = drop (length ip) s1;
          fr = (case s2 of c # r \<Rightarrow> if c = CHR ''.'' \<and> takeWhile is_digit r \<noteq> [] then c # takeWhile is_digit r else [] | [] \<Rightarrow> []);
          s3 = drop (length fr) s2;
          ex = (case s3 of
                  c # r \<Rightarrow>
                    if c = CHR ''e'' \<or> c = CHR ''E'' then
                      (let sg = (case r of d # r' \<Rightarrow> if d = CHR ''+'' \<or> d = CHR ''-'' then [d] else [] | [] \<Rightarrow> []);
                           ds = takeWhile is_digit (drop (length sg) r)
                       in if ds = [] then [] else c # sg @ ds)
                    else []
                | [] \<Rightarrow> []);
          s4 = drop (length ex) s3
      in if ip = [] then None
         else if fr = [] \<and> ex = [] then Some (JInt ((if neg then - 1 else 1) * int (digits_val ip)), s4)
         else Some (JFloat ((if neg then ''-'' else []) @ ip @ fr @ ex), s4))"

fun parse_value :: "nat \<Rightarrow> string \<Rightarrow> (json \<times> string) option"
  and parse_elements :: "nat \<Rightarrow> string \<Rightarrow> json list \<Rightarrow> (json \<times> string) option"
  and parse_members :: "nat \<Rightarrow> string \<Rightarrow> (string \<times> json) list \<Rightarrow> (json \<times> string) option" where
  "parse_value 0 s = None"
| "parse_value (Suc n) s =
     (case skip_ws s of
        [] \<Rightarrow> None
      | c # cs \<Rightarrow>
          if c = CHR 0x22 then
            (case parse_string cs of None \<Rightarrow> None | Some (str, rest) \<Rightarrow> Some (JStr str, rest))
          else if c = CHR ''['' then
            (if take 1 (skip_ws cs) = '']'' then Some (JArr [], drop 1 (skip_ws cs))
             else parse_elements n cs [])
          else if c = CHR ''{'' then
            (if take 1 (skip_ws cs) = ''}'' then Some (JObj [], drop 1 (skip_ws cs))
             else parse_members n cs [])
          else if take 4 (c # cs) = ''null'' then Some (JNull, drop 4 (c # cs))
          else if take 4 (c # cs) = ''true'' then Some (JBool True, drop 4 (c # cs))
          else if take 5 (c # cs) = ''false'' then Some (JBool False, drop 5 (c # cs))
          else parse_number (c # cs))"
| "parse_elements 0 s acc = None"
| "parse_elements (Suc n) s acc =
     (case parse_value n s of
        None \<Rightarrow> None
      | Some (v, rest) \<Rightarrow>
          (case skip_ws rest of
             [] \<Rightarrow> None
           | c # rest' \<Rightarrow>
               if c = CHR '','' then parse_elements n rest' (acc @ [v])
               else if c = CHR '']'' then Some (JArr (acc @ [v]), rest')
               else None))"
| "parse_members 0 s acc = None"
| "parse_members (Suc n) s acc =
     (case skip_ws s of
        [] \<Rightarrow> None
      | q # cs \<Rightarrow>
          if q \<noteq> CHR 0x22 then None
          else
            (case parse_string cs of
               None \<Rightarrow> None
             | Some (k, rest) \<Rightarrow>
                 (case skip_ws rest of
                    [] \<Rightarrow> None
                  | c # rest' \<Rightarrow>
                      if c \<noteq> CHR '':'' then None
                      else
                        (case parse_value n rest' of
                           None \<Rightarrow> None
                         | Some (v, rest'') \<Rightarrow>
                             (case skip_ws rest'' of
                                [] \<Rightarrow> None
                              | d # r \<Rightarrow>
                                  if d = CHR '','' then parse_members n r (dict_set acc k v)
                                  else if d = CHR ''}'' then Some (JObj (dict_set acc k v), r)
                                  else None)))))"

definition json_decode :: "string \<Rightarrow> json option" where
  "json_decode s =
     (case parse_value (2 * length s + 2) s of
        None \<Rightarrow> None
      | Some (v, rest) \<Rightarrow> if skip_ws rest = [] then Some v else None)"

subsection \<open>\<^verbatim>\<open>str\<close> on scalar values\<close>

fun show_nat :: "nat \<Rightarrow> nat \<Rightarrow> string" where
  "show_nat 0 n = []"
| "show_nat (Suc fuel) n =
     (if n < 10 then [char_of (48 + n)] else show_nat fuel (n div 10) @ [char_of (48 + n mod 10)])"

definition str_of_value :: "json \<Rightarrow> string" where
  "str_of_value v =
     (case v of
        JNull \<Rightarrow> ''None''
      | JBool b \<Rightarrow> (if b then ''True'' else ''False'')
      | JInt i \<Rightarrow> (if i < 0 then ''-'' else []) @ show_nat (Suc (nat \<bar>i\<bar>)) (nat \<bar>i\<bar>)
      | JFloat r \<Rightarrow> r
      | JStr s \<Rightarrow> s
      | _ \<Rightarrow> type_name v)"

subsection \<open>A photo collection\<close>

text \<open>
  An export directory with the JPEG files \<open>A.jpg\<close>, \<open>A.JPG\<close>, \<open>B.jpg\<close> and \<open>C.jpg\<close>, and a
  photo tree in which \<open>A.ARW\<close> has a sidecar, \<open>C.arw\<close> has none and \<open>B\<close> has no RAW file.
  The inference service answers in three fragments with one keyword, the contents of
  the image. The metadata tool succeeds.
\<close>

definition photo_tree :: fsnode where
  "photo_tree =
     Dir [(''exports'', Dir [(''A.jpg'', File ''first''), (''A.JPG'', File ''second''),
                            (''B.jpg'', File ''third''), (''C.jpg'', File ''fourth''),
                            (''notes.txt'', File [])]),
          (''photos'', Dir [(''2024'', Dir [(''A.ARW'', File ''raw''), (''A.xmp'', File ''xmp''),
                                          (''C.arw'', File ''raw'')]),
                           (''D.DNG'', File ''raw''), (''D.xmp'', File ''xmp'')]),
          (''taxonomy.txt'', File ''landscape sunset'')]"

definition answer :: "nat \<Rightarrow> request \<Rightarrow> error + string option list" where
  "answer n rq =
     Inr [Some ([CHR ''{'', CHR 0x22] @ ''keywords'' @ [CHR 0x22] @ '': ['' @ [CHR 0x22]),
          None,
          Some (rq_image rq),
          Some ([CHR 0x22] @ '']}'')]"

definition photo_env :: env where
  "photo_env =
     \<lparr>fs_root = photo_tree, cwd = [], environ = (\<lambda>v. None),
      fnmatch = fnmatchcase, json_loads = json_decode, py_str = str_of_value,
      service = answer, process = (\<lambda>n cmd. Completed 0 [] [])\<rparr>"

text \<open>The same collection with a metadata tool that fails.\<close>

definition failing_env :: env where
  "failing_env = photo_env\<lparr>process := (\<lambda>n cmd. Completed 1 [] ''Error'')\<rparr>"

definition init_state :: state where
  "init_state = \<lparr>proc_calls = [], gen_calls = []\<rparr>"

section \<open>Properties of paths\<close>

lemma split_sep_nonempty: "split_sep s \<noteq> []"
  by (induction s) (auto split: list.splits)

lemma split_sep_no_sep: "CHR ''/'' \<notin> set s \<Longrightarrow> split_sep s = [s]"
  by (induction s) auto

lemma split_sep_parts_no_sep: "x \<in> set (split_sep s) \<Longrightarrow> CHR ''/'' \<notin> set x"
proof (induction s arbitrary: x)
  case Nil
  then show ?case by simp
next
  case (Cons c cs)
  show ?case
  proof (cases "c = CHR ''/''")
    case True
    with Cons show ?thesis by auto
  next
    case False
    obtain y ys where ys: "split_sep cs = y # ys"
      using split_sep_nonempty [of cs] by (cases "split_sep cs") auto
    from Cons.prems False ys have "x = c # y \<or> x \<in> set ys" by simp
    then show ?thesis
    proof
      assume "x = c # y"
      moreover have "CHR ''/'' \<notin> set y" using Cons.IH [of y] ys by simp
      ultimately show ?thesis using False by auto
    next
      assume "x \<in> set ys"
      then show ?thesis using Cons.IH [of x] ys by simp
    qed
  qed
qed

lemma parse_parts_single:
  "CHR ''/'' \<notin> set s \<Longrightarrow> s \<noteq> [] \<Longrightarrow> s \<noteq> ''.'' \<Longrightarrow> parse_parts s = [s]"
  by (simp add: parse_parts_def split_sep_no_sep)

lemma parse_root_no_sep: "CHR ''/'' \<notin> set s \<Longrightarrow> parse_root s = []"
  by (cases s) (auto simp: parse_root_def)

lemma joinpath_single:
  "CHR ''/'' \<notin> set s \<Longrightarrow> s \<noteq> [] \<Longrightarrow> s \<noteq> ''.'' \<Longrightarrow>
   joinpath p s = p\<lparr>p_parts := p_parts p @ [s]\<rparr>"
  by (simp add: joinpath_def parse_root_no_sep parse_parts_single)

lemma name_snoc: "name (p\<lparr>p_parts := xs @ [s]\<rparr>) = s"
  by (cases xs) (simp_all add: name_def)

lemma parent_snoc: "parent (p\<lparr>p_parts := p_parts p @ [s]\<rparr>) = p"
  by (cases "p_parts p") (simp_all add: parent_def)

lemma rfind_append_dot:
  "CHR ''.'' \<notin> set e \<Longrightarrow> rfind CHR ''.'' (st @ CHR ''.'' # e) = Some (length st)"
proof (induction st)
  case Nil
  have "rfind CHR ''.'' e = None" using Nil by (induction e) auto
  then show ?case by simp
next
  case (Cons a st)
  then show ?case by simp
qed

lemma rfind_less: "rfind c s = Some i \<Longrightarrow> i < length s"
  by (induction s arbitrary: i) (auto split: option.splits if_splits)

lemma rfind_None: "rfind c s = None \<longleftrightarrow> c \<notin> set s"
  by (induction s) (auto split: option.splits)

lemma stem_name_dot:
  assumes "name p = st @ CHR ''.'' # e" "st \<noteq> []" "e \<noteq> []" "CHR ''.'' \<notin> set e"
  shows "stem p = st"
  using assms by (simp add: stem_def rfind_append_dot)

lemma suffix_name_dot:
  assumes "name p = st @ CHR ''.'' # e" "st \<noteq> []" "e \<noteq> []" "CHR ''.'' \<notin> set e"
  shows "suffix p = CHR ''.'' # e"
  using assms by (simp add: suffix_def rfind_append_dot)

lemma name_Path_wf:
  "name (Path s) \<noteq> [] \<Longrightarrow> CHR ''/'' \<notin> set (name (Path s)) \<and> name (Path s) \<in> set (p_parts (Path s))"
proof -
  assume n: "name (Path s) \<noteq> []"
  then have ne: "p_parts (Path s) \<noteq> []" by (auto simp: name_def)
  then have "name (Path s) = last (p_parts (Path s))"
    by (cases "p_parts (Path s)") (simp_all add: name_def)
  with ne have mem: "name (Path s) \<in> set (p_parts (Path s))" by simp
  then have "name (Path s) \<in> set (split_sep s)" by (simp add: Path_def parse_parts_def)
  then have "CHR ''/'' \<notin> set (name (Path s))" by (rule split_sep_parts_no_sep)
  with mem show ?thesis by simp
qed

lemma stem_nonempty: "name p \<noteq> [] \<Longrightarrow> stem p \<noteq> []"
  by (auto simp: stem_def Let_def split: option.splits dest: rfind_less)

lemma set_stem: "set (stem p) \<subseteq> set (name p)"
  by (auto simp: stem_def Let_def split: option.splits dest: in_set_takeD)

lemma get_xmp_path_parts:
  assumes "name p \<noteq> []" "CHR ''/'' \<notin> set (name p)"
  shows "get_xmp_path p = (parent p)\<lparr>p_parts := p_parts (parent p) @ [stem p @ ''.xmp'']\<rparr>"
proof -
  have "CHR ''/'' \<notin> set (stem p @ ''.xmp'')" using assms set_stem [of p] by auto
  then show ?thesis unfolding get_xmp_path_def by (intro joinpath_single) auto
qed

subsection \<open>Sidecar path derivation\<close>

text \<open>
  Claim C8. \<^verbatim>\<open>get_xmp_path\<close> is a function of the RAW path alone, and for every RAW path
  it returns \<^verbatim>\<open>raw.parent / (raw.stem + ".xmp")\<close>. Whenever the path names a file, the
  sidecar lies in the same directory, has the same stem and the fixed suffix \<open>.xmp\<close>.
  The result does not depend on the extension of the RAW file, hence not on its case:
  a file \<open>st.e\<close> in directory \<open>d\<close> has the sidecar \<open>d/st.xmp\<close> for every
  extension \<open>e\<close>.
\<close>

theorem get_xmp_path_spec:
  "get_xmp_path (Path s) = joinpath (parent (Path s)) (stem (Path s) @ ''.xmp'')
   \<and> (name (Path s) \<noteq> [] \<longrightarrow>
        parent (get_xmp_path (Path s)) = parent (Path s)
      \<and> stem (get_xmp_path (Path s)) = stem (Path s)
      \<and> suffix (get_xmp_path (Path s)) = ''.xmp'')
   \<and> (st \<noteq> [] \<and> e \<noteq> [] \<and> CHR ''.'' \<notin> set e \<and> CHR ''/'' \<notin> set (st @ e) \<longrightarrow>
        get_xmp_path (joinpath d (st @ ''.'' @ e)) = joinpath d (st @ ''.xmp''))"
proof (intro conjI impI)
  show "get_xmp_path (Path s) = joinpath (parent (Path s)) (stem (Path s) @ ''.xmp'')"
    by (simp add: get_xmp_path_def)
next
  assume n: "name (Path s) \<noteq> []"
  let ?p = "Path s"
  have eq: "get_xmp_path ?p = (parent ?p)\<lparr>p_parts := p_parts (parent ?p) @ [stem ?p @ ''.xmp'']\<rparr>"
    using n name_Path_wf [of s] by (intro get_xmp_path_parts) auto
  have nm: "name (get_xmp_path ?p) = stem ?p @ CHR ''.'' # ''xmp''"
    by (simp add: eq name_snoc)
  show "parent (get_xmp_path ?p) = parent ?p" by (simp add: eq parent_snoc)
  show "stem (get_xmp_path ?p) = stem ?p"
    using stem_name_dot [of "get_xmp_path ?p" "stem ?p" "''xmp''"] nm stem_nonempty [OF n]
    by simp
  show "suffix (get_xmp_path ?p) = ''.xmp''"
    using suffix_name_dot [of "get_xmp_path ?p" "stem ?p" "''xmp''"] nm stem_nonempty [OF n]
    by simp
next
  assume h: "st \<noteq> [] \<and> e \<noteq> [] \<and> CHR ''.'' \<notin> set e \<and> CHR ''/'' \<notin> set (st @ e)"
  define n where "n = st @ CHR ''.'' # e"
  have r: "joinpath d n = d\<lparr>p_parts := p_parts d @ [n]\<rparr>"
  proof (intro joinpath_single)
    show "n \<noteq> ''.''" using h by (cases st) (auto simp: n_def)
  qed (use h in \<open>auto simp: n_def\<close>)
  have "name (joinpath d n) = n" by (simp add: r name_snoc)
  then have "stem (joinpath d n) = st"
    using h stem_name_dot [of "joinpath d n" st e] by (simp add: n_def)
  moreover have "parent (joinpath d n) = d" by (simp add: r parent_snoc)
  ultimately have "get_xmp_path (joinpath d n) = joinpath d (st @ ''.xmp'')"
    by (simp add: get_xmp_path_def)
  then show "get_xmp_path (joinpath d (st @ ''.'' @ e)) = joinpath d (st @ ''.xmp'')"
    by (simp add: n_def)
qed

text \<open>The paths of the repository's tests, in both cases of the extension.\<close>

theorem get_xmp_path_spec_witness:
  "get_xmp_path (Path ''/photos/2024/DSC00089.ARW'') = Path ''/photos/2024/DSC00089.xmp''
   \<and> get_xmp_path (Path ''/photos/2024/DSC00089.arw'') = Path ''/photos/2024/DSC00089.xmp''
   \<and> name (Path ''/photos/2024/DSC00089.ARW'') \<noteq> []
   \<and> stem (get_xmp_path (Path ''/photos/2024/DSC00089.ARW'')) = ''DSC00089''
   \<and> get_xmp_path (joinpath (Path ''/photos'') (''IMG_1234'' @ ''.'' @ ''dng'')) = Path ''/photos/IMG_1234.xmp''"
  using get_xmp_path_spec [of "''/photos/2024/DSC00089.ARW''" "''IMG_1234''" "''dng''" "Path ''/photos''"]
  by (simp add: get_xmp_path_def Path_def joinpath_def parent_def stem_def name_def
      parse_root_def parse_parts_def)

section \<open>Properties of the metadata writer\<close>

lemma ensure_loop_filter:
  "ensure_loop E raws w wo =
     (w @ filter (check_xmp_exists E) raws, wo @ filter (\<lambda>r. \<not> check_xmp_exists E r) raws)"
  by (induction raws arbitrary: w wo) auto

lemma ensure_xmp_sidecars_filter:
  "ensure_xmp_sidecars E raws =
     (filter (check_xmp_exists E) raws, filter (\<lambda>r. \<not> check_xmp_exists E r) raws)"
  by (simp add: ensure_xmp_sidecars_def ensure_loop_filter)

lemma first_missing_None: "first_missing E raws = None \<longleftrightarrow> (\<forall>r \<in> set raws. exists E r)"
  by (induction raws) auto

lemma first_missing_Some:
  "first_missing E raws = Some r \<Longrightarrow> r \<in> set raws \<and> \<not> exists E r"
  by (induction raws) (auto split: if_splits)

lemma build_cmd_strings:
  "build_cmd E exe (map JStr kws) xmp =
     [exe, ''-overwrite_original''] @ map (\<lambda>k. ''-XMP-dc:Subject+='' @ k) kws @ [str_path xmp]"
  by (simp add: build_cmd_def format_value_def comp_def)

lemma add_keywords_to_xmp_run:
  assumes "exists E xmp" "kws \<noteq> []"
  shows "snd (add_keywords_to_xmp E xmp (JArr (map JStr kws)) exe s)
           = s\<lparr>proc_calls := proc_calls s @ [build_cmd E exe (map JStr kws) xmp]\<rparr>"
  using assms
  by (auto simp: add_keywords_to_xmp_def subprocess_run_def Let_def
      split: proc_outcome.splits prod.splits sum.splits)

lemma add_keywords_to_xmp_ok:
  assumes "exists E xmp" "kws \<noteq> []"
    and "process E (length (proc_calls s)) (build_cmd E exe (map JStr kws) xmp) = Completed 0 out err"
  shows "add_keywords_to_xmp E xmp (JArr (map JStr kws)) exe s
           = (Inr (), s\<lparr>proc_calls := proc_calls s @ [build_cmd E exe (map JStr kws) xmp]\<rparr>)"
  using assms by (simp add: add_keywords_to_xmp_def subprocess_run_def Let_def)

lemmas path_eval = Path_def parse_root_def parse_parts_def joinpath_def name_def parent_def
  stem_def suffix_def str_path_def get_xmp_path_def
lemmas photo_eval = exists_def lookup_def check_xmp_exists_def photo_env_def photo_tree_def
  failing_env_def init_state_def

lemma exists_photo_A_xmp: "exists photo_env (Path ''/photos/2024/A.xmp'')"
  by (simp add: exists_def lookup_def photo_env_def photo_tree_def Path_def parse_root_def parse_parts_def)

lemma not_exists_photo_C_xmp: "\<not> exists photo_env (Path ''/photos/2024/C.xmp'')"
  by (simp add: exists_def lookup_def photo_env_def photo_tree_def Path_def parse_root_def parse_parts_def)

subsection \<open>The command line of the metadata tool\<close>

text \<open>
  Claim C2, as amended. For every non-empty keyword sequence and every sidecar path that
  exists, \<^verbatim>\<open>add_keywords_to_xmp\<close> runs one external command with exactly these arguments
  in order: the exiftool binary path, the single flag \<^verbatim>\<open>-overwrite_original\<close> (which
  overwrites in place and thereby suppresses the backup file), one
  \<^verbatim>\<open>-XMP-dc:Subject+=keyword\<close> argument per keyword, and finally the sidecar path. For a
  sidecar path that does not exist it fails with a missing-file condition and runs nothing.
\<close>

theorem add_keywords_to_xmp_command:
  "kws \<noteq> [] \<longrightarrow>
     (if exists E xmp_file
      then proc_calls (snd (add_keywords_to_xmp E xmp_file (JArr (map JStr kws)) exiftool_path s))
             = proc_calls s @
               [[exiftool_path, ''-overwrite_original'']
                @ map (\<lambda>keyword. ''-XMP-dc:Subject+='' @ keyword) kws
                @ [str_path xmp_file]]
      else add_keywords_to_xmp E xmp_file (JArr (map JStr kws)) exiftool_path s
             = (Inl (FileNotFoundError (''XMP file not found: '' @ str_path xmp_file)), s))"
proof (intro impI)
  assume k: "kws \<noteq> []"
  show "if exists E xmp_file
      then proc_calls (snd (add_keywords_to_xmp E xmp_file (JArr (map JStr kws)) exiftool_path s))
             = proc_calls s @
               [[exiftool_path, ''-overwrite_original'']
                @ map (\<lambda>keyword. ''-XMP-dc:Subject+='' @ keyword) kws
                @ [str_path xmp_file]]
      else add_keywords_to_xmp E xmp_file (JArr (map JStr kws)) exiftool_path s
             = (Inl (FileNotFoundError (''XMP file not found: '' @ str_path xmp_file)), s)"
  proof (cases "exists E xmp_file")
    case True
    then show ?thesis
      using add_keywords_to_xmp_run [OF True k, of exiftool_path s]
      by (simp add: build_cmd_strings)
  next
    case False
    then show ?thesis by (simp add: add_keywords_to_xmp_def)
  qed
qed

theorem add_keywords_to_xmp_command_witness:
  "[''landscape'', ''sunset''] \<noteq> [] \<and> exists photo_env (Path ''/photos/2024/A.xmp'')
   \<and> proc_calls (snd (add_keywords_to_xmp photo_env (Path ''/photos/2024/A.xmp'')
        (JArr (map JStr [''landscape'', ''sunset''])) ''exiftool'' init_state))
      = [[''exiftool'', ''-overwrite_original'', ''-XMP-dc:Subject+=landscape'',
          ''-XMP-dc:Subject+=sunset'', ''/photos/2024/A.xmp'']]"
  using add_keywords_to_xmp_command [of "[''landscape'', ''sunset'']" photo_env
      "Path ''/photos/2024/A.xmp''" "''exiftool''" init_state]
    exists_photo_A_xmp
  by (simp add: init_state_def str_path_def Path_def parse_root_def parse_parts_def)

text \<open>
  The claim as stated lists two flags between the binary and the keywords, and covers
  every sidecar path. For one keyword and the existing sidecar \<open>/photos/2024/A.xmp\<close> the
  command has four arguments, not five; for the missing sidecar \<open>/photos/2024/C.xmp\<close>
  no command is run.
\<close>

theorem add_keywords_to_xmp_command_counterexample:
  "proc_calls (snd (add_keywords_to_xmp photo_env (Path ''/photos/2024/A.xmp'')
        (JArr [JStr ''sunset'']) ''exiftool'' init_state))
     = [[''exiftool'', ''-overwrite_original'', ''-XMP-dc:Subject+=sunset'', ''/photos/2024/A.xmp'']]
   \<and> length (hd (proc_calls (snd (add_keywords_to_xmp photo_env (Path ''/photos/2024/A.xmp'')
        (JArr [JStr ''sunset'']) ''exiftool'' init_state)))) \<noteq> 1 + 2 + length [''sunset''] + 1
   \<and> add_keywords_to_xmp photo_env (Path ''/photos/2024/C.xmp'') (JArr [JStr ''sunset''])
        ''exiftool'' init_state
     = (Inl (FileNotFoundError ''XMP file not found: /photos/2024/C.xmp''), init_state)"
proof -
  have a: "proc_calls (snd (add_keywords_to_xmp photo_env (Path ''/photos/2024/A.xmp'')
        (JArr [JStr ''sunset'']) ''exiftool'' init_state))
     = [[''exiftool'', ''-overwrite_original'', ''-XMP-dc:Subject+=sunset'', ''/photos/2024/A.xmp'']]"
    using add_keywords_to_xmp_run [OF exists_photo_A_xmp, of "[''sunset'']" "''exiftool''" init_state]
    by (simp add: build_cmd_def format_value_def init_state_def str_path_def Path_def parse_root_def
        parse_parts_def)
  have c: "add_keywords_to_xmp photo_env (Path ''/photos/2024/C.xmp'') (JArr [JStr ''sunset''])
        ''exiftool'' init_state
     = (Inl (FileNotFoundError ''XMP file not found: /photos/2024/C.xmp''), init_state)"
    using not_exists_photo_C_xmp
    by (simp add: add_keywords_to_xmp_def str_path_def Path_def parse_root_def parse_parts_def)
  show ?thesis by (simp add: a c)
qed

subsection \<open>Batch writing\<close>

lemma batch_loop_calls:
  assumes ok: "\<forall>n cmd. \<exists>out err. process E n cmd = Completed 0 out err"
    and W: "\<forall>raw \<in> set (map fst m). raw \<in> set W \<longleftrightarrow> check_xmp_exists E raw"
  shows "batch_loop E W exe (map (\<lambda>(raw, kws). (raw, JArr (map JStr kws))) m) s
         = (Inr (), s\<lparr>proc_calls := proc_calls s @
              map (\<lambda>(raw, kws). build_cmd E exe (map JStr kws) (get_xmp_path raw))
                  (filter (\<lambda>(raw, kws). check_xmp_exists E raw \<and> kws \<noteq> []) m)\<rparr>)"
  using W
proof (induction m arbitrary: s)
  case Nil
  then show ?case by simp
next
  case (Cons a m)
  obtain raw kws where a: "a = (raw, kws)" by (cases a)
  have IH: "\<And>s. batch_loop E W exe (map (\<lambda>(raw, kws). (raw, JArr (map JStr kws))) m) s
         = (Inr (), s\<lparr>proc_calls := proc_calls s @
              map (\<lambda>(raw, kws). build_cmd E exe (map JStr kws) (get_xmp_path raw))
                  (filter (\<lambda>(raw, kws). check_xmp_exists E raw \<and> kws \<noteq> []) m)\<rparr>)"
    using Cons by simp
  have mem: "raw \<in> set W \<longleftrightarrow> check_xmp_exists E raw" using Cons.prems a by simp
  show ?case
  proof (cases "check_xmp_exists E raw \<and> kws \<noteq> []")
    case True
    then have ex: "exists E (get_xmp_path raw)" by (simp add: check_xmp_exists_def)
    obtain out err where
      p: "process E (length (proc_calls s)) (build_cmd E exe (map JStr kws) (get_xmp_path raw))
            = Completed 0 out err"
      using ok by blast
    have step: "add_keywords_to_xmp E (get_xmp_path raw) (JArr (map JStr kws)) exe s
           = (Inr (), s\<lparr>proc_calls := proc_calls s @ [build_cmd E exe (map JStr kws) (get_xmp_path raw)]\<rparr>)"
      using add_keywords_to_xmp_ok [OF ex _ p] True by simp
    show ?thesis using True mem by (simp add: a step IH)
  next
    case False
    then show ?thesis using mem by (auto simp: a IH)
  qed
qed

text \<open>
  Claim C3, as amended. For every mapping from RAW paths to keyword sequences in which
  every RAW file exists, and provided every run of the external tool succeeds,
  \<^verbatim>\<open>batch_add_keywords\<close> succeeds and runs the tool exactly once per entry whose RAW file
  has a sidecar and whose keyword sequence is non-empty, in the order of the mapping, and
  not at all for the other entries.
\<close>

theorem batch_add_keywords_calls:
  assumes "\<forall>raw \<in> set (map fst m). exists E raw"
    and "\<forall>n cmd. \<exists>out err. process E n cmd = Completed 0 out err"
  shows "batch_add_keywords E (map (\<lambda>(raw, kws). (raw, JArr (map JStr kws))) m) exiftool_path s
         = (Inr (), s\<lparr>proc_calls := proc_calls s @
              map (\<lambda>(raw, kws). [exiftool_path, ''-overwrite_original'']
                                  @ map (\<lambda>keyword. ''-XMP-dc:Subject+='' @ keyword) kws
                                  @ [str_path (get_xmp_path raw)])
                  (filter (\<lambda>(raw, kws). check_xmp_exists E raw \<and> kws \<noteq> []) m)\<rparr>)"
proof -
  let ?m' = "map (\<lambda>(raw, kws). (raw, JArr (map JStr kws))) m"
  have keys: "map fst ?m' = map fst m" by (induction m) auto
  have none: "first_missing E (map fst ?m') = None"
    using assms(1) unfolding keys by (simp add: first_missing_None)
  let ?W = "fst (ensure_xmp_sidecars E (map fst ?m'))"
  have W: "\<forall>raw \<in> set (map fst m). raw \<in> set ?W \<longleftrightarrow> check_xmp_exists E raw"
    unfolding keys by (simp add: ensure_xmp_sidecars_filter)
  have "batch_add_keywords E ?m' exiftool_path s = batch_loop E ?W exiftool_path ?m' s"
    unfolding batch_add_keywords_def Let_def none by simp
  also have "\<dots> = (Inr (), s\<lparr>proc_calls := proc_calls s @
              map (\<lambda>(raw, kws). build_cmd E exiftool_path (map JStr kws) (get_xmp_path raw))
                  (filter (\<lambda>(raw, kws). check_xmp_exists E raw \<and> kws \<noteq> []) m)\<rparr>)"
    by (rule batch_loop_calls [OF assms(2) W])
  finally show ?thesis by (simp add: build_cmd_strings)
qed

theorem batch_add_keywords_calls_witness:
  "exists photo_env (Path ''/photos/2024/A.ARW'') \<and> exists photo_env (Path ''/photos/2024/C.arw'')
   \<and> exists photo_env (Path ''/photos/D.DNG'')
   \<and> (\<forall>n cmd. \<exists>out err. process photo_env n cmd = Completed 0 out err)
   \<and> batch_add_keywords photo_env
        [(Path ''/photos/2024/A.ARW'', JArr [JStr ''landscape'', JStr ''sunset'']),
         (Path ''/photos/2024/C.arw'', JArr [JStr ''portrait'']),
         (Path ''/photos/D.DNG'', JArr [])] ''exiftool'' init_state
      = (Inr (), \<lparr>proc_calls = [[''exiftool'', ''-overwrite_original'', ''-XMP-dc:Subject+=landscape'',
                                  ''-XMP-dc:Subject+=sunset'', ''/photos/2024/A.xmp'']],
                  gen_calls = []\<rparr>)"
proof -
  let ?m = "[(Path ''/photos/2024/A.ARW'', [''landscape'', ''sunset'']),
             (Path ''/photos/2024/C.arw'', [''portrait'']),
             (Path ''/photos/D.DNG'', [])]"
  have h1: "\<forall>raw \<in> set (map fst ?m). exists photo_env raw"
    by (simp add: path_eval photo_eval)
  have h2: "\<forall>n cmd. \<exists>out err. process photo_env n cmd = Completed 0 out err"
    by (simp add: photo_env_def)
  show ?thesis
    using h1 h2 batch_add_keywords_calls [OF h1 h2, of "''exiftool''" init_state]
    by (simp add: path_eval photo_eval)
qed

text \<open>
  Without the proviso the claim fails: when the tool exits with code 1, the batch stops at
  the first entry, and the second entry, whose RAW file has a sidecar and a keyword, gets
  no run.
\<close>

theorem batch_add_keywords_calls_counterexample:
  "exists failing_env (Path ''/photos/2024/A.ARW'') \<and> exists failing_env (Path ''/photos/D.DNG'')
   \<and> check_xmp_exists failing_env (Path ''/photos/2024/A.ARW'')
   \<and> check_xmp_exists failing_env (Path ''/photos/D.DNG'')
   \<and> batch_add_keywords failing_env
        [(Path ''/photos/2024/A.ARW'', JArr [JStr ''landscape'']),
         (Path ''/photos/D.DNG'', JArr [JStr ''portrait''])] ''exiftool'' init_state
      = (Inl (CalledProcessError 1
               [''exiftool'', ''-overwrite_original'', ''-XMP-dc:Subject+=landscape'', ''/photos/2024/A.xmp'']
               [] ''Error''),
         \<lparr>proc_calls = [[''exiftool'', ''-overwrite_original'', ''-XMP-dc:Subject+=landscape'',
                         ''/photos/2024/A.xmp'']],
          gen_calls = []\<rparr>)"
  by (simp add: path_eval photo_eval batch_add_keywords_def ensure_xmp_sidecars_def
      add_keywords_to_xmp_def subprocess_run_def build_cmd_def format_value_def Let_def)

text \<open>
  Claim C4. For every mapping in which some RAW file does not exist,
  \<^verbatim>\<open>batch_add_keywords\<close> fails with a missing-file condition that names a missing RAW file
  of the mapping, and the state is the one it started in: no external command has run.
\<close>

theorem batch_add_keywords_missing_raw:
  assumes "\<exists>raw \<in> set (map fst m). \<not> exists E raw"
  shows "\<exists>raw \<in> set (map fst m). \<not> exists E raw \<and>
           batch_add_keywords E m exiftool_path s
             = (Inl (FileNotFoundError (''RAW file not found: '' @ str_path raw)), s)"
proof -
  from assms have "first_missing E (map fst m) \<noteq> None" by (simp add: first_missing_None)
  then obtain raw where r: "first_missing E (map fst m) = Some raw" by auto
  then have "raw \<in> set (map fst m) \<and> \<not> exists E raw" by (rule first_missing_Some)
  moreover have "batch_add_keywords E m exiftool_path s
             = (Inl (FileNotFoundError (''RAW file not found: '' @ str_path raw)), s)"
    by (simp add: batch_add_keywords_def Let_def r)
  ultimately show ?thesis by blast
qed

theorem batch_add_keywords_missing_raw_witness:
  "(\<exists>raw \<in> set (map fst [(Path ''/photos/2024/A.ARW'', JArr [JStr ''landscape'']),
                              (Path ''/photos/2024/Z.ARW'', JArr [JStr ''portrait''])]).
       \<not> exists photo_env raw)
   \<and> batch_add_keywords photo_env
        [(Path ''/photos/2024/A.ARW'', JArr [JStr ''landscape'']),
         (Path ''/photos/2024/Z.ARW'', JArr [JStr ''portrait''])] ''exiftool'' init_state
      = (Inl (FileNotFoundError ''RAW file not found: /photos/2024/Z.ARW''), init_state)"
proof -
  let ?m = "[(Path ''/photos/2024/A.ARW'', JArr [JStr ''landscape'']),
             (Path ''/photos/2024/Z.ARW'', JArr [JStr ''portrait''])]"
  have h: "\<exists>raw \<in> set (map fst ?m). \<not> exists photo_env raw"
    by (simp add: path_eval photo_eval)
  show ?thesis
    using h batch_add_keywords_missing_raw [OF h, of "''exiftool''" init_state]
    by (simp add: path_eval photo_eval)
qed

section \<open>Properties of the file matcher\<close>

subsection \<open>Batch matching\<close>

lemma dict_set_image: "fst ` set (dict_set d k v) = insert k (fst ` set d)"
  by (induction d k v rule: dict_set.induct) auto

lemma dict_set_keys: "set (map fst (dict_set d k v)) = insert k (set (map fst d))"
  by (simp add: dict_set_image)

lemma dict_set_distinct: "distinct (map fst d) \<Longrightarrow> distinct (map fst (dict_set d k v))"
  by (induction d k v rule: dict_set.induct) (auto simp: dict_set_image)


lemma glob_recursive_ok:
  "accepted_pattern (''**/'' @ n) \<Longrightarrow> \<exists>ms. glob E b (''**/'' @ n) = Inr ms"
  by (simp add: glob_def parse_root_def)








subsection \<open>Matching respects the extension list\<close>

lemma yield_once_subset: "set (yield_once ys xs) \<subseteq> set xs"
  by (induction xs arbitrary: ys) auto

lemma plain_not_star: "plain_name n \<Longrightarrow> n \<noteq> ''**''"
  by (auto simp: plain_name_def is_wildcard_pattern_def)

lemma select_from_plain:
  assumes "plain_name n"
  shows "set (select_from E [n] q) \<subseteq> {child q n}"
  using assms plain_not_star [OF assms] by (auto simp: plain_name_def)

lemma select_from_recursive_plain:
  assumes "plain_name n" "p \<in> set (select_from E [''**'', n] q)"
  shows "name p = n"
proof -
  from assms(2) have "p \<in> set (concat (map (select_from E [n]) (iterate_directories E q)))"
    using yield_once_subset by (fastforce simp del: select_from.simps(2) simp: select_from.simps(2) [of E "''**''"])
  then obtain d where "p \<in> set (select_from E [n] d)"
    by (auto simp del: select_from.simps)
  then have "p = child d n" using select_from_plain [OF assms(1)] by blast
  then show ?thesis by (simp add: child_def name_snoc)
qed

lemma split_sep_append:
  "CHR ''/'' \<notin> set a \<Longrightarrow> split_sep (a @ CHR ''/'' # b) = a # split_sep b"
  by (induction a) auto

lemma parse_parts_recursive_plain:
  assumes "plain_name n"
  shows "parse_parts (''**/'' @ n) = [''**'', n]"
proof -
  have "split_sep (''**'' @ CHR ''/'' # n) = ''**'' # split_sep n"
    by (rule split_sep_append) simp
  moreover have "split_sep n = [n]" using assms by (simp add: plain_name_def split_sep_no_sep)
  ultimately show ?thesis using assms by (simp add: parse_parts_def plain_name_def)
qed

lemma pattern_parts_recursive_plain:
  assumes "plain_name n"
  shows "pattern_parts (''**/'' @ n) = [''**'', n]"
proof -
  have "n \<noteq> []" "CHR ''/'' \<notin> set n" using assms by (simp_all add: plain_name_def)
  then have "last n \<noteq> CHR ''/''" using last_in_set [of n] by metis
  then have "last (''**/'' @ n) \<noteq> CHR ''/''" using \<open>n \<noteq> []\<close> by simp
  then show ?thesis
    unfolding pattern_parts_def parse_parts_recursive_plain [OF assms] by simp
qed

lemma has_double_star_star: "has_double_star s \<Longrightarrow> CHR ''*'' \<in> set s"
  by (induction s rule: has_double_star.induct) auto

lemma accepted_recursive_plain:
  assumes "plain_name n"
  shows "accepted_pattern (''**/'' @ n)"
proof -
  have "\<not> has_double_star n"
    using assms has_double_star_star [of n] by (auto simp: plain_name_def is_wildcard_pattern_def)
  then show ?thesis
    unfolding accepted_pattern_def pattern_parts_recursive_plain [OF assms]
    by (simp add: invalid_component_def)
qed

lemma glob_recursive_plain:
  assumes "plain_name n" "glob E b (''**/'' @ n) = Inr ms" "p \<in> set ms"
  shows "name p = n"
proof -
  have "ms = [] \<or> ms = select_from E [''**'', n] b"
    using assms(2) unfolding glob_def pattern_parts_recursive_plain [OF assms(1)]
    by (auto simp: parse_root_def split: if_splits)
  then show ?thesis using assms(3) select_from_recursive_plain [OF assms(1)] by auto
qed

lemma find_loop_plain:
  assumes "\<forall>ext \<in> set exts. plain_name (st @ ext)" "find_loop E b st exts = Inr (Some raw)"
  shows "\<exists>ext \<in> set exts. name raw = st @ ext"
  using assms
proof (induction exts)
  case Nil
  then show ?case by simp
next
  case (Cons ext exts)
  have "plain_name (st @ ext)" using Cons.prems(1) by simp
  then obtain ms where ms: "glob E b (''**/'' @ st @ ext) = Inr ms"
    using glob_recursive_ok [of "st @ ext" E b] accepted_recursive_plain by auto
  show ?case
  proof (cases ms)
    case Nil
    then have "find_loop E b st exts = Inr (Some raw)" using Cons.prems(2) ms by simp
    then show ?thesis using Cons by auto
  next
    case (Cons m ms')
    then have "raw = m" using Cons.prems(2) ms by simp
    moreover have "name m = st @ ext"
      using glob_recursive_plain [OF _ ms, of m] Cons.prems(1) Cons by simp
    ultimately show ?thesis by simp
  qed
qed

text \<open>
  Claim C6, as amended. For every stem and extension list such that the stem followed by
  each extension is a plain file name (without the wildcard characters of \<^verbatim>\<open>glob\<close> and
  without a separator), \<^verbatim>\<open>find_raw_file\<close> returns only from an existing search directory,
  and only a file whose name is the stem followed by an extension of the list, case
  included: a search with only \<open>.DNG\<close> returns a file named stem\<open>.DNG\<close>, never one that
  ends in \<open>.arw\<close>.
\<close>

theorem find_raw_file_extension:
  assumes "\<forall>ext \<in> set (extension_list extensions). plain_name (stem jpeg_path @ ext)"
    and "find_raw_file E jpeg_path base_path extensions = Inr (Some raw)"
  shows "exists E base_path
         \<and> (\<exists>ext \<in> set (extension_list extensions). name raw = stem jpeg_path @ ext)
         \<and> (extensions = Some [''.DNG''] \<longrightarrow> name raw = stem jpeg_path @ ''.DNG'')"
proof -
  have b: "exists E base_path" using assms(2) by (auto simp: find_raw_file_def split: if_splits)
  then have "find_loop E base_path (stem jpeg_path) (extension_list extensions) = Inr (Some raw)"
    using assms(2) by (simp add: find_raw_file_def)
  then have e: "\<exists>ext \<in> set (extension_list extensions). name raw = stem jpeg_path @ ext"
    using find_loop_plain [OF assms(1)] by blast
  then have "extensions = Some [''.DNG''] \<longrightarrow> name raw = stem jpeg_path @ ''.DNG''"
    by (auto simp: extension_list_def)
  with b e show ?thesis by blast
qed

theorem find_raw_file_extension_witness:
  "plain_name (stem (Path ''/exports/A.jpg'') @ ''.arw'')
   \<and> plain_name (stem (Path ''/exports/A.jpg'') @ ''.dng'')
   \<and> plain_name (stem (Path ''/exports/A.jpg'') @ ''.ARW'')
   \<and> plain_name (stem (Path ''/exports/A.jpg'') @ ''.DNG'')
   \<and> find_raw_file photo_env (Path ''/exports/A.jpg'') (Path ''/photos'') None
      = Inr (Some (Path ''/photos/2024/A.ARW''))
   \<and> name (Path ''/photos/2024/A.ARW'') = stem (Path ''/exports/A.jpg'') @ ''.ARW''
   \<and> find_raw_file photo_env (Path ''/exports/A.jpg'') (Path ''/photos'') (Some [''.DNG'']) = Inr None"
proof -
  have h1: "\<forall>ext \<in> set (extension_list None). plain_name (stem (Path ''/exports/A.jpg'') @ ext)"
    by code_simp
  have h2: "find_raw_file photo_env (Path ''/exports/A.jpg'') (Path ''/photos'') None
      = Inr (Some (Path ''/photos/2024/A.ARW''))" by code_simp
  have n: "name (Path ''/photos/2024/A.ARW'') = stem (Path ''/exports/A.jpg'') @ ''.ARW''"
    by code_simp
  have d: "find_raw_file photo_env (Path ''/exports/A.jpg'') (Path ''/photos'') (Some [''.DNG'']) = Inr None"
    by code_simp
  show ?thesis
    using find_raw_file_extension [OF h1 h2] h1 h2 n d
    by (simp add: extension_list_def default_extensions_def)
qed

text \<open>
  The claim as stated covers every extension list. The stem and the extension are pasted
  into a \<^verbatim>\<open>glob\<close> pattern, so an extension with a wildcard matches other extensions: a
  search for \<open>.*\<close> returns \<open>A.ARW\<close>, whose extension is not a member of the list.
\<close>

theorem find_raw_file_extension_counterexample:
  "find_raw_file photo_env (Path ''/exports/A.jpg'') (Path ''/photos'') (Some [''.*''])
     = Inr (Some (Path ''/photos/2024/A.ARW''))
   \<and> suffix (Path ''/photos/2024/A.ARW'') = ''.ARW''
   \<and> ''.ARW'' \<notin> set [''.*'']"
  by code_simp

section \<open>Properties of the keyword requester\<close>

lemma collect_text_concatenation:
  "collect_text acc chunks = acc @ concatenation chunks"
  by (induction chunks arbitrary: acc) (auto simp: concatenation_def split: option.splits)

lemma is_file_read: "is_file E p \<Longrightarrow> exists E p \<and> (\<exists>c. read_file E p = Inr c)"
  by (auto simp: is_file_def exists_def read_file_def split: option.splits fsnode.splits)

lemma lookup_with_service [simp]: "lookup (with_service E chunks) p = lookup E p"
  by (simp add: lookup_def with_service_def)

lemma service_with_service [simp]: "service (with_service E chunks) n rq = Inr chunks"
  by (simp add: with_service_def)

lemma generate_keywords_response:
  assumes "inputs_ok E image_path taxonomy_path api_key"
  shows "fst (generate_keywords (with_service E chunks) image_path taxonomy_path api_key model
                thinking_budget s)
         = parse_response E (concatenation chunks)"
proof -
  let ?E = "with_service E chunks"
  have i: "exists ?E image_path" "\<exists>c. read_file ?E image_path = Inr c"
    and t: "exists ?E taxonomy_path" "\<exists>c. read_file ?E taxonomy_path = Inr c"
    using assms is_file_read [of E image_path] is_file_read [of E taxonomy_path]
    by (auto simp: inputs_ok_def exists_def read_file_def)
  obtain ci ct where r: "read_file ?E image_path = Inr ci" "read_file ?E taxonomy_path = Inr ct"
    using i t by blast
  obtain k where k: "(case api_key of None \<Rightarrow> environ ?E ''GEMINI_API_KEY'' | Some k \<Rightarrow> Some k) = Some k"
    "k \<noteq> []"
    using assms by (auto simp: inputs_ok_def with_service_def split: option.splits)
  have p: "parse_response ?E = parse_response E"
    by (rule ext) (simp add: parse_response_def with_service_def)
  show ?thesis
    unfolding generate_keywords_def
    using i(1) t(1) r k
    by (simp add: Let_def p collect_text_concatenation)
qed

subsection \<open>A response that is not JSON\<close>




subsection \<open>A response in fragments\<close>

text \<open>
  Claim C7. When the inputs of a request are in order and the concatenation of the
  response fragments parses as a JSON object, \<^verbatim>\<open>generate_keywords\<close> returns exactly the value
  of the object's \<open>keywords\<close> field, or the empty list when the field is absent; and any
  other sequence of fragments with the same concatenation gives the same result.
\<close>

theorem generate_keywords_fragments:
  assumes "inputs_ok E image_path taxonomy_path api_key"
    and "json_loads E (concatenation chunks) = Some (JObj kvs)"
  shows "fst (generate_keywords (with_service E chunks) image_path taxonomy_path api_key model
                thinking_budget s)
           = Inr (case map_of kvs ''keywords'' of Some v \<Rightarrow> v | None \<Rightarrow> JArr [])
         \<and> (concatenation chunks' = concatenation chunks \<longrightarrow>
              fst (generate_keywords (with_service E chunks') image_path taxonomy_path api_key model
                     thinking_budget s)
              = fst (generate_keywords (with_service E chunks) image_path taxonomy_path api_key model
                     thinking_budget s))"
  using generate_keywords_response [OF assms(1)] assms(2) by (simp add: parse_response_def)

text \<open>
  The fragments \<^verbatim>\<open>{"keywords": [\<close>, \<^verbatim>\<open>"x","y"\<close>, \<^verbatim>\<open>]}\<close> give the keywords \<open>x\<close> and \<open>y\<close>,
  and so does the same text cut at other places.
\<close>

theorem generate_keywords_fragments_witness:
  "inputs_ok photo_env (Path ''/exports/A.jpg'') (Path ''/taxonomy.txt'') (Some ''key'')
   \<and> json_loads photo_env
         (concatenation [Some ([CHR ''{'', CHR 0x22] @ ''keywords'' @ [CHR 0x22] @ '': [''),
                         Some ([CHR 0x22] @ ''x'' @ [CHR 0x22] @ '','' @ [CHR 0x22] @ ''y'' @ [CHR 0x22]),
                         Some '']}''])
       = Some (JObj [(''keywords'', JArr [JStr ''x'', JStr ''y''])])
   \<and> fst (generate_keywords
             (with_service photo_env
                [Some ([CHR ''{'', CHR 0x22] @ ''keywords'' @ [CHR 0x22] @ '': [''),
                 Some ([CHR 0x22] @ ''x'' @ [CHR 0x22] @ '','' @ [CHR 0x22] @ ''y'' @ [CHR 0x22]),
                 Some '']}''])
             (Path ''/exports/A.jpg'') (Path ''/taxonomy.txt'') (Some ''key'')
             ''gemini-flash-lite-latest'' 8132 init_state)
       = Inr (JArr [JStr ''x'', JStr ''y''])
   \<and> fst (generate_keywords
             (with_service photo_env
                [Some ([CHR ''{'', CHR 0x22] @ ''keywords'' @ [CHR 0x22] @ '': ['' @ [CHR 0x22] @ ''x''),
                 None,
                 Some ([CHR 0x22] @ '','' @ [CHR 0x22] @ ''y'' @ [CHR 0x22] @ '']}'')])
             (Path ''/exports/A.jpg'') (Path ''/taxonomy.txt'') (Some ''key'')
             ''gemini-flash-lite-latest'' 8132 init_state)
       = Inr (JArr [JStr ''x'', JStr ''y''])"
proof -
  let ?c = "[Some ([CHR ''{'', CHR 0x22] @ ''keywords'' @ [CHR 0x22] @ '': [''),
             Some ([CHR 0x22] @ ''x'' @ [CHR 0x22] @ '','' @ [CHR 0x22] @ ''y'' @ [CHR 0x22]),
             Some '']}'']"
  let ?c' = "[Some ([CHR ''{'', CHR 0x22] @ ''keywords'' @ [CHR 0x22] @ '': ['' @ [CHR 0x22] @ ''x''),
              None,
              Some ([CHR 0x22] @ '','' @ [CHR 0x22] @ ''y'' @ [CHR 0x22] @ '']}'')]"
  have h1: "inputs_ok photo_env (Path ''/exports/A.jpg'') (Path ''/taxonomy.txt'') (Some ''key'')"
    by code_simp
  have h2: "json_loads photo_env (concatenation ?c)
              = Some (JObj [(''keywords'', JArr [JStr ''x'', JStr ''y''])])"
    by code_simp
  have e: "concatenation ?c' = concatenation ?c" by (simp add: concatenation_def)
  show ?thesis
    using h1 h2 e
      generate_keywords_fragments [OF h1 h2, of "''gemini-flash-lite-latest''" 8132 init_state ?c']
    by simp
qed

section \<open>Properties of the directory pipeline\<close>

lemma generate_keywords_Inr:
  assumes "generate_keywords E img taxonomy api_key model budget s = (Inr k, s')"
  shows "length (gen_calls s') = Suc (length (gen_calls s)) \<and> proc_calls s' = proc_calls s"
proof -
  let ?key = "case api_key of None \<Rightarrow> environ E ''GEMINI_API_KEY'' | Some k \<Rightarrow> Some k"
  from assms have e: "exists E img" "exists E taxonomy"
    unfolding generate_keywords_def by (auto split: if_splits)
  from assms e obtain key where key: "?key = Some key" "key \<noteq> []"
    unfolding generate_keywords_def by (cases ?key) (auto split: if_splits)
  from assms e key obtain ci where ci: "read_file E img = Inr ci"
    unfolding generate_keywords_def by (cases "read_file E img") auto
  from assms e key ci obtain ct where ct: "read_file E taxonomy = Inr ct"
    unfolding generate_keywords_def by (cases "read_file E taxonomy") auto
  define rq where "rq = \<lparr>rq_api_key = key, rq_model = model, rq_image = ci,
                          rq_mime_type = get_mime_type img, rq_prompt = build_prompt ct,
                          rq_thinking_budget = budget\<rparr>"
  have g: "generate_keywords E img taxonomy api_key model budget s
        = (case service E (length (gen_calls s)) rq of
             Inl e \<Rightarrow> (Inl e, s\<lparr>gen_calls := gen_calls s @ [rq]\<rparr>)
           | Inr chunks \<Rightarrow> (parse_response E (collect_text [] chunks), s\<lparr>gen_calls := gen_calls s @ [rq]\<rparr>))"
    unfolding generate_keywords_def rq_def using e key ci ct by (simp add: Let_def)
  have "s' = s\<lparr>gen_calls := gen_calls s @ [rq]\<rparr>"
    using assms unfolding g by (cases "service E (length (gen_calls s)) rq") auto
  then show ?thesis by simp
qed

lemma gen_loop_props:
  assumes "gen_loop E taxonomy api_key model budget pairs acc s = (Inr res, s')"
  shows "set (map fst res) = set (map fst acc) \<union> set (map snd pairs)
         \<and> (distinct (map fst acc) \<longrightarrow> distinct (map fst res))
         \<and> length (gen_calls s') = length (gen_calls s) + length pairs"
  using assms
proof (induction pairs arbitrary: acc s)
  case Nil
  then show ?case by simp
next
  case (Cons a pairs)
  obtain jpeg raw where a: "a = (jpeg, raw)" by (cases a)
  obtain r1 s1 where g: "generate_keywords E jpeg taxonomy api_key model budget s = (r1, s1)"
    by (cases "generate_keywords E jpeg taxonomy api_key model budget s")
  have step: "gen_loop E taxonomy api_key model budget (a # pairs) acc s
        = (case r1 of
             Inl e \<Rightarrow> (Inl e, s1)
           | Inr k \<Rightarrow> gen_loop E taxonomy api_key model budget pairs (dict_set acc raw k) s1)"
    unfolding a gen_loop.simps g by simp
  show ?case
  proof (cases r1)
    case (Inl e)
    have False using Cons.prems unfolding step Inl by simp
    then show ?thesis ..
  next
    case (Inr k)
    have rest: "gen_loop E taxonomy api_key model budget pairs (dict_set acc raw k) s1 = (Inr res, s')"
      using Cons.prems unfolding step Inr by simp
    have c: "length (gen_calls s1) = Suc (length (gen_calls s))"
      using generate_keywords_Inr [OF g [unfolded Inr]] by simp
    have k1: "set (map fst (dict_set acc raw k)) = insert raw (set (map fst acc))"
      by (rule dict_set_keys)
    have k2: "distinct (map fst acc) \<longrightarrow> distinct (map fst (dict_set acc raw k))"
      by (simp add: dict_set_distinct)
    have i1: "set (map fst res) = set (map fst (dict_set acc raw k)) \<union> set (map snd pairs)"
      and i2: "distinct (map fst (dict_set acc raw k)) \<longrightarrow> distinct (map fst res)"
      and i3: "length (gen_calls s') = length (gen_calls s1) + length pairs"
      using Cons.IH [OF rest] by blast+
    have "set (map fst res) = set (map fst acc) \<union> set (map snd (a # pairs))"
      unfolding i1 k1 a by auto
    moreover have "distinct (map fst acc) \<longrightarrow> distinct (map fst res)"
      using k2 i2 by blast
    moreover have "length (gen_calls s') = length (gen_calls s) + length (a # pairs)"
      using i3 c by simp
    ultimately show ?thesis by blast
  qed
qed

lemma add_keywords_to_xmp_gen_calls:
  "gen_calls (snd (add_keywords_to_xmp E xmp kws exe s)) = gen_calls s"
  by (auto simp: add_keywords_to_xmp_def subprocess_run_def Let_def
      split: sum.splits proc_outcome.splits prod.splits)

lemma batch_loop_gen_calls:
  "gen_calls (snd (batch_loop E W exe m s)) = gen_calls s"
proof (induction m arbitrary: s)
  case Nil
  then show ?case by simp
next
  case (Cons a m)
  obtain raw kws where a: "a = (raw, kws)" by (cases a)
  obtain r1 s1 where x: "add_keywords_to_xmp E (get_xmp_path raw) kws exe s = (r1, s1)"
    by (cases "add_keywords_to_xmp E (get_xmp_path raw) kws exe s")
  then have "gen_calls s1 = gen_calls s"
    using add_keywords_to_xmp_gen_calls [of E "get_xmp_path raw" kws exe s] by simp
  then show ?case using Cons x by (cases r1) (auto simp: a)
qed

lemma batch_add_keywords_gen_calls:
  "gen_calls (snd (batch_add_keywords E m exe s)) = gen_calls s"
  by (simp add: batch_add_keywords_def Let_def batch_loop_gen_calls split: option.splits)

lemma with_sidecar_verified:
  "raw \<in> set (map snd (with_sidecar E jpeg_to_raw)) \<Longrightarrow>
     raw \<in> set (fst (ensure_xmp_sidecars E (map snd jpeg_to_raw))) \<and> check_xmp_exists E raw"
  by (auto simp: with_sidecar_def Let_def ensure_xmp_sidecars_filter)

lemma tag_matched_unfold:
  assumes "tag_matched E taxonomy api_key model budget exe jpeg_to_raw s = (Inr result, s')"
  shows "\<exists>s1. gen_loop E taxonomy api_key model budget (with_sidecar E jpeg_to_raw) [] s
                 = (Inr result, s1)
              \<and> batch_add_keywords E result exe s1 = (Inr (), s')"
proof -
  obtain r1 s1 where g:
    "gen_loop E taxonomy api_key model budget (with_sidecar E jpeg_to_raw) [] s = (r1, s1)"
    by (cases "gen_loop E taxonomy api_key model budget (with_sidecar E jpeg_to_raw) [] s")
  have ne: "fst (ensure_xmp_sidecars E (map snd jpeg_to_raw)) \<noteq> []"
    using assms unfolding tag_matched_def Let_def by (auto split: if_splits)
  have t: "tag_matched E taxonomy api_key model budget exe jpeg_to_raw s
        = (case r1 of
             Inl e \<Rightarrow> (Inl e, s1)
           | Inr raw_to_keywords \<Rightarrow>
               (case batch_add_keywords E raw_to_keywords exe s1 of
                  (Inl e, s'') \<Rightarrow> (Inl e, s'')
                | (Inr u, s'') \<Rightarrow> (Inr raw_to_keywords, s'')))"
    unfolding tag_matched_def Let_def using ne g by simp
  show ?thesis
  proof (cases r1)
    case (Inl e)
    then show ?thesis using assms t by simp
  next
    case (Inr m)
    obtain r2 s2 where b: "batch_add_keywords E m exe s1 = (r2, s2)"
      by (cases "batch_add_keywords E m exe s1")
    show ?thesis
    proof (cases r2)
      case (Inl e)
      then show ?thesis using assms t Inr b by simp
    next
      case (Inr u)
      then show ?thesis using assms t \<open>r1 = Inr m\<close> b g by simp
    qed
  qed
qed

lemma tag_matched_props:
  assumes "tag_matched E taxonomy api_key model budget exe jpeg_to_raw s = (Inr result, s')"
  shows "set (map fst result) = set (map snd (with_sidecar E jpeg_to_raw))
         \<and> distinct (map fst result)
         \<and> length (gen_calls s') = length (gen_calls s) + length (with_sidecar E jpeg_to_raw)"
proof -
  obtain s1 where g:
    "gen_loop E taxonomy api_key model budget (with_sidecar E jpeg_to_raw) [] s = (Inr result, s1)"
    and b: "batch_add_keywords E result exe s1 = (Inr (), s')"
    using tag_matched_unfold [OF assms] by blast
  have "gen_calls s' = gen_calls s1"
    using batch_add_keywords_gen_calls [of E result exe s1] b by simp
  then show ?thesis using gen_loop_props [OF g] by simp
qed

lemma process_directory_Inr:
  assumes "process_directory E jpeg_dir raw_search_path taxonomy_path api_key model thinking_budget
             exiftool_path extensions s = (Inr result, s')"
  shows "\<exists>jpeg_files jpeg_to_raw missing.
           discover_jpegs E jpeg_dir = Inr jpeg_files
         \<and> match_loop E raw_search_path extensions jpeg_files [] [] = Inr (jpeg_to_raw, missing)
         \<and> tag_matched E taxonomy_path api_key model thinking_budget exiftool_path jpeg_to_raw s
             = (Inr result, s')"
proof (cases "discover_jpegs E jpeg_dir")
  case (Inl e)
  then show ?thesis using assms unfolding process_directory_def by (simp split: if_splits)
next
  case (Inr jpeg_files)
  note d = this
  show ?thesis
  proof (cases "match_loop E raw_search_path extensions jpeg_files [] []")
    case (Inl e)
    then show ?thesis using assms d unfolding process_directory_def by (simp split: if_splits)
  next
    case (Inr pr)
    obtain jpeg_to_raw missing where pr: "pr = (jpeg_to_raw, missing)" by (cases pr)
    have "tag_matched E taxonomy_path api_key model thinking_budget exiftool_path jpeg_to_raw s
             = (Inr result, s')"
      using assms d Inr pr unfolding process_directory_def by (simp split: if_splits)
    then show ?thesis using d Inr pr by blast
  qed
qed

lemma find_raw_file_stem:
  "stem jpeg1 = stem jpeg2 \<Longrightarrow>
     find_raw_file E jpeg1 base_path extensions = find_raw_file E jpeg2 base_path extensions"
  by (simp add: find_raw_file_def)

lemma length_le_of_keys:
  assumes "distinct (map fst result)" "set (map fst result) = set (map snd ws)"
  shows "length result \<le> length ws"
proof -
  have "length result = card (set (map fst result))"
    using assms(1) distinct_card [of "map fst result"] by simp
  also have "\<dots> = card (set (map snd ws))" using assms(2) by simp
  also have "\<dots> \<le> length (map snd ws)" by (rule card_length)
  finally show ?thesis by simp
qed

text \<open>
  A run on the photo collection: \<open>A.jpg\<close> and \<open>A.JPG\<close> are both matched to \<open>A.ARW\<close>, which
  has a sidecar; \<open>C.jpg\<close> is matched to \<open>C.arw\<close>, which has none; \<open>B.jpg\<close> has no RAW file.
\<close>

lemma photo_run:
  "fst (process_directory photo_env (Path ''/exports'') (Path ''/photos'') (Path ''/taxonomy.txt'')
          (Some ''key'') ''gemini-flash-lite-latest'' 8132 ''exiftool'' None init_state)
     = Inr [(Path ''/photos/2024/A.ARW'', JArr [JStr ''second''])]"
  by code_simp

lemma photo_run_pair:
  "process_directory photo_env (Path ''/exports'') (Path ''/photos'') (Path ''/taxonomy.txt'')
          (Some ''key'') ''gemini-flash-lite-latest'' 8132 ''exiftool'' None init_state
     = (Inr [(Path ''/photos/2024/A.ARW'', JArr [JStr ''second''])],
        snd (process_directory photo_env (Path ''/exports'') (Path ''/photos'') (Path ''/taxonomy.txt'')
          (Some ''key'') ''gemini-flash-lite-latest'' 8132 ''exiftool'' None init_state))"
  using photo_run by (metis prod.collapse)

lemma photo_discover:
  "discover_jpegs photo_env (Path ''/exports'')
     = Inr [Path ''/exports/A.jpg'', Path ''/exports/B.jpg'', Path ''/exports/C.jpg'',
            Path ''/exports/A.JPG'']"
  by code_simp

lemma photo_match:
  "match_loop photo_env (Path ''/photos'') None
      [Path ''/exports/A.jpg'', Path ''/exports/B.jpg'', Path ''/exports/C.jpg'',
       Path ''/exports/A.JPG''] [] []
     = Inr ([(Path ''/exports/A.jpg'', Path ''/photos/2024/A.ARW''),
             (Path ''/exports/C.jpg'', Path ''/photos/2024/C.arw''),
             (Path ''/exports/A.JPG'', Path ''/photos/2024/A.ARW'')],
            [Path ''/exports/B.jpg''])"
  by code_simp

lemma photo_with_sidecar:
  "with_sidecar photo_env
      [(Path ''/exports/A.jpg'', Path ''/photos/2024/A.ARW''),
       (Path ''/exports/C.jpg'', Path ''/photos/2024/C.arw''),
       (Path ''/exports/A.JPG'', Path ''/photos/2024/A.ARW'')]
     = [(Path ''/exports/A.jpg'', Path ''/photos/2024/A.ARW''),
        (Path ''/exports/A.JPG'', Path ''/photos/2024/A.ARW'')]"
  by code_simp

subsection \<open>Every key of the result has a verified sidecar\<close>

text \<open>
  Claim C9. Whenever \<^verbatim>\<open>process_directory\<close> returns a mapping, every key of it is a RAW
  file of the with-sidecar list that \<^verbatim>\<open>ensure_xmp_sidecars\<close> gave for the matched RAW files,
  so its sidecar was found to exist; the mapping was complete when the keyword loop ended,
  and the metadata were written after that, from this mapping.
\<close>

theorem process_directory_keys_verified:
  assumes "process_directory E jpeg_dir raw_search_path taxonomy_path api_key model thinking_budget
             exiftool_path extensions s = (Inr result, s')"
  shows "\<exists>jpeg_files jpeg_to_raw missing s1.
           discover_jpegs E jpeg_dir = Inr jpeg_files
         \<and> match_loop E raw_search_path extensions jpeg_files [] [] = Inr (jpeg_to_raw, missing)
         \<and> (\<forall>raw \<in> set (map fst result).
                raw \<in> set (fst (ensure_xmp_sidecars E (map snd jpeg_to_raw)))
              \<and> check_xmp_exists E raw)
         \<and> gen_loop E taxonomy_path api_key model thinking_budget (with_sidecar E jpeg_to_raw) [] s
               = (Inr result, s1)
         \<and> batch_add_keywords E result exiftool_path s1 = (Inr (), s')"
proof -
  obtain jpeg_files jpeg_to_raw missing where
    d: "discover_jpegs E jpeg_dir = Inr jpeg_files"
    and m: "match_loop E raw_search_path extensions jpeg_files [] [] = Inr (jpeg_to_raw, missing)"
    and t: "tag_matched E taxonomy_path api_key model thinking_budget exiftool_path jpeg_to_raw s
             = (Inr result, s')"
    using process_directory_Inr [OF assms] by blast
  obtain s1 where
    g: "gen_loop E taxonomy_path api_key model thinking_budget (with_sidecar E jpeg_to_raw) [] s
          = (Inr result, s1)"
    and b: "batch_add_keywords E result exiftool_path s1 = (Inr (), s')"
    using tag_matched_unfold [OF t] by blast
  have k: "set (map fst result) = set (map snd (with_sidecar E jpeg_to_raw))"
    using tag_matched_props [OF t] by simp
  have "\<forall>raw \<in> set (map fst result).
                raw \<in> set (fst (ensure_xmp_sidecars E (map snd jpeg_to_raw)))
              \<and> check_xmp_exists E raw"
    unfolding k using with_sidecar_verified by blast
  then show ?thesis using d m g b by blast
qed

theorem process_directory_keys_verified_witness:
  "process_directory photo_env (Path ''/exports'') (Path ''/photos'') (Path ''/taxonomy.txt'')
          (Some ''key'') ''gemini-flash-lite-latest'' 8132 ''exiftool'' None init_state
     = (Inr [(Path ''/photos/2024/A.ARW'', JArr [JStr ''second''])],
        snd (process_directory photo_env (Path ''/exports'') (Path ''/photos'') (Path ''/taxonomy.txt'')
          (Some ''key'') ''gemini-flash-lite-latest'' 8132 ''exiftool'' None init_state))
   \<and> check_xmp_exists photo_env (Path ''/photos/2024/A.ARW'')
   \<and> get_xmp_path (Path ''/photos/2024/A.ARW'') = Path ''/photos/2024/A.xmp''"
proof -
  have "check_xmp_exists photo_env (Path ''/photos/2024/A.ARW'')"
    using process_directory_keys_verified [OF photo_run_pair] by auto
  moreover have "get_xmp_path (Path ''/photos/2024/A.ARW'') = Path ''/photos/2024/A.xmp''"
    by code_simp
  ultimately show ?thesis using photo_run_pair by simp
qed

subsection \<open>JPEG files that share a stem\<close>

text \<open>
  Claim C10. Two JPEG files with the same stem are matched to the same RAW path. The
  keyword loop asks once per JPEG file, and for two files with the same RAW path the
  keywords of the later one replace those of the earlier one, leaving one entry. So a
  returned mapping has one request behind each pair that passed the sidecar check, has
  the RAW paths of these pairs as its distinct keys, and has at most as many entries as
  there are such pairs; and there is a run in which it has fewer.
\<close>

theorem process_directory_shared_stem:
  "(stem jpeg1 = stem jpeg2 \<longrightarrow>
      find_raw_file E jpeg1 raw_search_path extensions = find_raw_file E jpeg2 raw_search_path extensions)
   \<and> (gen_loop E taxonomy_path api_key model thinking_budget [(jpeg1, raw), (jpeg2, raw)] [] s
         = (Inr result, s') \<longrightarrow>
        (\<exists>k1 s1 k2.
            generate_keywords E jpeg1 taxonomy_path api_key model thinking_budget s = (Inr k1, s1)
          \<and> generate_keywords E jpeg2 taxonomy_path api_key model thinking_budget s1 = (Inr k2, s')
          \<and> result = [(raw, k2)]))
   \<and> (process_directory E jpeg_dir raw_search_path taxonomy_path api_key model thinking_budget
         exiftool_path extensions s = (Inr result, s') \<longrightarrow>
        (\<exists>jpeg_files jpeg_to_raw missing.
            discover_jpegs E jpeg_dir = Inr jpeg_files
          \<and> match_loop E raw_search_path extensions jpeg_files [] [] = Inr (jpeg_to_raw, missing)
          \<and> length (gen_calls s') = length (gen_calls s) + length (with_sidecar E jpeg_to_raw)
          \<and> distinct (map fst result)
          \<and> set (map fst result) = set (map snd (with_sidecar E jpeg_to_raw))
          \<and> length result \<le> length (with_sidecar E jpeg_to_raw)))
   \<and> (\<exists>E' dir' search' taxonomy' key' model' budget' exe' s0 result' s1' jpeg_files jpeg_to_raw missing.
          process_directory E' dir' search' taxonomy' key' model' budget' exe' None s0
            = (Inr result', s1')
        \<and> discover_jpegs E' dir' = Inr jpeg_files
        \<and> match_loop E' search' None jpeg_files [] [] = Inr (jpeg_to_raw, missing)
        \<and> length result' < length (with_sidecar E' jpeg_to_raw))"
proof (intro conjI impI)
  note photo_run_pair
  moreover have "length [(Path ''/photos/2024/A.ARW'', JArr [JStr ''second''])]
        < length (with_sidecar photo_env
            [(Path ''/exports/A.jpg'', Path ''/photos/2024/A.ARW''),
             (Path ''/exports/C.jpg'', Path ''/photos/2024/C.arw''),
             (Path ''/exports/A.JPG'', Path ''/photos/2024/A.ARW'')])"
    by (simp add: photo_with_sidecar)
  ultimately show "\<exists>E' dir' search' taxonomy' key' model' budget' exe' s0 result' s1' jpeg_files jpeg_to_raw missing.
          process_directory E' dir' search' taxonomy' key' model' budget' exe' None s0
            = (Inr result', s1')
        \<and> discover_jpegs E' dir' = Inr jpeg_files
        \<and> match_loop E' search' None jpeg_files [] [] = Inr (jpeg_to_raw, missing)
        \<and> length result' < length (with_sidecar E' jpeg_to_raw)"
    using photo_discover photo_match by blast
next
  assume "stem jpeg1 = stem jpeg2"
  then show "find_raw_file E jpeg1 raw_search_path extensions
             = find_raw_file E jpeg2 raw_search_path extensions"
    by (rule find_raw_file_stem)
next
  assume a: "gen_loop E taxonomy_path api_key model thinking_budget [(jpeg1, raw), (jpeg2, raw)] [] s
         = (Inr result, s')"
  obtain r1 s1 where g1:
    "generate_keywords E jpeg1 taxonomy_path api_key model thinking_budget s = (r1, s1)"
    by (cases "generate_keywords E jpeg1 taxonomy_path api_key model thinking_budget s")
  obtain k1 where k1: "r1 = Inr k1" using a g1 by (cases r1) auto
  obtain r2 s2 where g2:
    "generate_keywords E jpeg2 taxonomy_path api_key model thinking_budget s1 = (r2, s2)"
    by (cases "generate_keywords E jpeg2 taxonomy_path api_key model thinking_budget s1")
  obtain k2 where k2: "r2 = Inr k2" using a g1 k1 g2 by (cases r2) auto
  have "result = [(raw, k2)]" "s' = s2" using a g1 k1 g2 k2 by auto
  then show "\<exists>k1 s1 k2.
            generate_keywords E jpeg1 taxonomy_path api_key model thinking_budget s = (Inr k1, s1)
          \<and> generate_keywords E jpeg2 taxonomy_path api_key model thinking_budget s1 = (Inr k2, s')
          \<and> result = [(raw, k2)]"
    using g1 k1 g2 k2 by blast
next
  assume a: "process_directory E jpeg_dir raw_search_path taxonomy_path api_key model thinking_budget
         exiftool_path extensions s = (Inr result, s')"
  obtain jpeg_files jpeg_to_raw missing where
    d: "discover_jpegs E jpeg_dir = Inr jpeg_files"
    and m: "match_loop E raw_search_path extensions jpeg_files [] [] = Inr (jpeg_to_raw, missing)"
    and t: "tag_matched E taxonomy_path api_key model thinking_budget exiftool_path jpeg_to_raw s
             = (Inr result, s')"
    using process_directory_Inr [OF a] by blast
  have p: "set (map fst result) = set (map snd (with_sidecar E jpeg_to_raw))"
    "distinct (map fst result)"
    "length (gen_calls s') = length (gen_calls s) + length (with_sidecar E jpeg_to_raw)"
    using tag_matched_props [OF t] by simp_all
  have "length result \<le> length (with_sidecar E jpeg_to_raw)"
    using length_le_of_keys [OF p(2) p(1)] .
  then show "\<exists>jpeg_files jpeg_to_raw missing.
            discover_jpegs E jpeg_dir = Inr jpeg_files
          \<and> match_loop E raw_search_path extensions jpeg_files [] [] = Inr (jpeg_to_raw, missing)
          \<and> length (gen_calls s') = length (gen_calls s) + length (with_sidecar E jpeg_to_raw)
          \<and> distinct (map fst result)
          \<and> set (map fst result) = set (map snd (with_sidecar E jpeg_to_raw))
          \<and> length result \<le> length (with_sidecar E jpeg_to_raw)"
    using d m p by blast
qed

theorem process_directory_shared_stem_witness:
  "stem (Path ''/exports/A.jpg'') = stem (Path ''/exports/A.JPG'')
   \<and> find_raw_file photo_env (Path ''/exports/A.jpg'') (Path ''/photos'') None
       = Inr (Some (Path ''/photos/2024/A.ARW''))
   \<and> find_raw_file photo_env (Path ''/exports/A.JPG'') (Path ''/photos'') None
       = Inr (Some (Path ''/photos/2024/A.ARW''))
   \<and> fst (process_directory photo_env (Path ''/exports'') (Path ''/photos'') (Path ''/taxonomy.txt'')
          (Some ''key'') ''gemini-flash-lite-latest'' 8132 ''exiftool'' None init_state)
       = Inr [(Path ''/photos/2024/A.ARW'', JArr [JStr ''second''])]
   \<and> map rq_image (gen_calls (snd (process_directory photo_env (Path ''/exports'') (Path ''/photos'')
          (Path ''/taxonomy.txt'') (Some ''key'') ''gemini-flash-lite-latest'' 8132 ''exiftool'' None
          init_state)))
       = [''first'', ''second'']
   \<and> length (with_sidecar photo_env
          [(Path ''/exports/A.jpg'', Path ''/photos/2024/A.ARW''),
           (Path ''/exports/C.jpg'', Path ''/photos/2024/C.arw''),
           (Path ''/exports/A.JPG'', Path ''/photos/2024/A.ARW'')]) = 2"
proof -
  have st: "stem (Path ''/exports/A.jpg'') = stem (Path ''/exports/A.JPG'')" by code_simp
  have f1: "find_raw_file photo_env (Path ''/exports/A.jpg'') (Path ''/photos'') None
       = Inr (Some (Path ''/photos/2024/A.ARW''))" by code_simp
  have f2: "find_raw_file photo_env (Path ''/exports/A.JPG'') (Path ''/photos'') None
       = Inr (Some (Path ''/photos/2024/A.ARW''))"
    using process_directory_shared_stem [of "Path ''/exports/A.jpg''" "Path ''/exports/A.JPG''"
        photo_env "Path ''/photos''" None] st f1 by simp
  have g: "map rq_image (gen_calls (snd (process_directory photo_env (Path ''/exports'') (Path ''/photos'')
          (Path ''/taxonomy.txt'') (Some ''key'') ''gemini-flash-lite-latest'' 8132 ''exiftool'' None
          init_state)))
       = [''first'', ''second'']" by code_simp
  show ?thesis using st f1 f2 g photo_run by (simp add: photo_with_sidecar)
qed

end
